theory Spec2Isabelle
  imports Main
begin

section \<open>Python values used by the tool\<close>

text \<open>
  Strings are lists of characters; one list element stands for one Python character, so
  \<open>length\<close> is Python's \<open>len\<close> and \<open>take n\<close> is the slice \<open>[:n]\<close> for a
  non-negative \<open>n\<close>.  A character of the model is a code point below 256, so the
  strings of the model are the Python strings over these code points.  Exceptions are
  values of the type \<open>error\<close>; a function that can raise returns \<open>error + 'a\<close> with
  \<open>Inl\<close> for the exception.
\<close>

datatype error =
    HTTPError
  | ConnectionError
  | OSError
  | RuntimeError string
  | ValueError string
  | FileNotFoundError string
  | LibraryError string

text \<open>\<open>s.endswith(suf)\<close>.\<close>

definition endswith :: "string \<Rightarrow> string \<Rightarrow> bool" where
  "endswith s suf = (length suf \<le> length s \<and> drop (length s - length suf) s = suf)"

text \<open>\<open>sub in s\<close> for strings: \<open>sub\<close> occurs at some position of \<open>s\<close>.\<close>

fun contains :: "string \<Rightarrow> string \<Rightarrow> bool" where
  "contains sub [] = (sub = [])"
| "contains sub (x # xs) = (take (length sub) (x # xs) = sub \<or> contains sub xs)"

text \<open>
  \<open>s.split(c)\<close> for a separator of one character.  The result is never empty, so the
  indices \<open>[0]\<close> and \<open>[-1]\<close> that the source applies to it are \<open>hd\<close> and \<open>last\<close>
  (lemma \<open>split_on_nonempty\<close>).
\<close>

fun split_on :: "char \<Rightarrow> string \<Rightarrow> string list" where
  "split_on c [] = [[]]"
| "split_on c (x # xs) =
     (if x = c then [] # split_on c xs
      else (case split_on c xs of
              [] \<Rightarrow> [[x]]
            | w # ws \<Rightarrow> (x # w) # ws))"

text \<open>
  \<open>s.split(c, 1)\<close>, unpacked into two names: \<open>None\<close> when \<open>c\<close> does not occur (the
  unpacking of a one-element list raises \<open>ValueError\<close>), otherwise the text before the
  first \<open>c\<close> and the text after it.
\<close>

definition split_once :: "char \<Rightarrow> string \<Rightarrow> (string \<times> string) option" where
  "split_once c s =
     (if c \<in> set s then Some (takeWhile (\<lambda>x. x \<noteq> c) s, tl (dropWhile (\<lambda>x. x \<noteq> c) s))
      else None)"

text \<open>
  The characters below 256 that \<open>str.strip()\<close> removes, those for which
  \<open>str.isspace()\<close> holds: tab to carriage return, the four separators U+001C to U+001F,
  the space, U+0085 and U+00A0.
\<close>

definition is_space :: "char \<Rightarrow> bool" where
  "is_space c = (c \<in> set [CHR 0x09, CHR 0x0A, CHR 0x0B, CHR 0x0C, CHR 0x0D,
                           CHR 0x1C, CHR 0x1D, CHR 0x1E, CHR 0x1F, CHR '' '',
                           CHR 0x85, CHR 0xA0])"

definition strip :: "string \<Rightarrow> string" where
  "strip s = rev (dropWhile is_space (rev (dropWhile is_space s)))"

text \<open>
  The characters below 256 that \<open>int()\<close> skips at both ends of a string.  It skips the
  white space of C (tab to carriage return and the space) and, having turned every
  character from 127 on that is white space into a space, U+0085 and U+00A0; the
  separators U+001C to U+001F stay as they are and make the string invalid.
\<close>

definition is_int_space :: "char \<Rightarrow> bool" where
  "is_int_space c = (c \<in> set [CHR 0x09, CHR 0x0A, CHR 0x0B, CHR 0x0C, CHR 0x0D, CHR '' '',
                               CHR 0x85, CHR 0xA0])"

definition is_digit :: "char \<Rightarrow> bool" where
  "is_digit c = (c \<in> set ''0123456789'')"

definition digit_val :: "char \<Rightarrow> int" where
  "digit_val c = int (of_char c) - 48"

text \<open>
  The digits of \<open>int(s)\<close>: decimal digits, where single underscores may stand between
  two digits.  The flag says that the previous character was a digit.
\<close>

fun parse_digits :: "int \<Rightarrow> bool \<Rightarrow> string \<Rightarrow> int option" where
  "parse_digits acc d [] = (if d then Some acc else None)"
| "parse_digits acc d (c # cs) =
     (if is_digit c then parse_digits (10 * acc + digit_val c) True cs
      else if c = CHR ''_'' \<and> d then parse_digits acc False cs
      else None)"

text \<open>
  The limit on the number of digits of a string that \<open>int()\<close> converts
  (\<open>sys.get_int_max_str_digits()\<close>, 4300 unless the interpreter is told otherwise): a string
  with more digits, underscores not counted, raises \<open>ValueError\<close>.
\<close>

definition int_max_str_digits :: nat where
  "int_max_str_digits = 4300"

definition digits_value :: "string \<Rightarrow> int option" where
  "digits_value body =
     (if int_max_str_digits < length (filter is_digit body) then None
      else parse_digits 0 False body)"

text \<open>\<open>int(s)\<close> on a string: \<open>None\<close> is the \<open>ValueError\<close>.\<close>

definition py_int :: "string \<Rightarrow> int option" where
  "py_int s =
     (case rev (dropWhile is_int_space (rev (dropWhile is_int_space s))) of
        [] \<Rightarrow> None
      | c # r \<Rightarrow>
          if c = CHR ''-'' then map_option uminus (digits_value r)
          else if c = CHR ''+'' then digits_value r
          else digits_value (c # r))"

text \<open>The slice \<open>xs[:n]\<close> for an integer \<open>n\<close>; a negative \<open>n\<close> counts from the end.\<close>

definition slice_to :: "int \<Rightarrow> 'a list \<Rightarrow> 'a list" where
  "slice_to n xs = (if 0 \<le> n then take (nat n) xs else take (length xs - nat (- n)) xs)"

text \<open>\<open>str(n)\<close> for an integer.\<close>

definition digit_char :: "nat \<Rightarrow> char" where
  "digit_char n = ''0123456789'' ! n"

fun str_nat :: "nat \<Rightarrow> string" where
  "str_nat n =
     (if n < 10 then [digit_char n]
      else str_nat (n div 10) @ [digit_char (n mod 10)])"

declare str_nat.simps [simp del]

definition str_int :: "int \<Rightarrow> string" where
  "str_int i = (if i < 0 then CHR ''-'' # str_nat (nat (- i)) else str_nat (nat i))"

text \<open>A value that may reach a \<open>date\<close> parameter: absent, a string or an integer.\<close>

datatype pyval = PyNone | PyStr string | PyInt int

text \<open>The text an f-string puts for \<open>{date}\<close>.\<close>

fun format_val :: "pyval \<Rightarrow> string" where
  "format_val PyNone = ''None''"
| "format_val (PyStr s) = s"
| "format_val (PyInt i) = str_int i"

section \<open>The listing client (benty_client.py)\<close>

text \<open>
  What \<open>_parse_paper\<close> reads from one \<open>div\<close> of class \<open>paper\<close>: the stripped text of the
  first \<open>h4\<close> and of the first \<open>p\<close> of class \<open>paper_row\<close> (\<open>None\<close> when there is no
  such element), the anchors of the block in document order with their \<open>href\<close> attribute
  and stripped text, and the stripped text of the paragraph named \<open>abstract_field\<close>.
\<close>

record anchor =
  href :: "string option"
  link_text :: string

record paper_div =
  h4_paper_row :: "string option"
  p_paper_row :: "string option"
  anchors :: "anchor list"
  abstract_field :: "string option"

record paper =
  rank :: int
  title :: string
  authors :: string
  abstract :: string
  arxiv_id :: string
  arxiv_version :: string
  pdf_url :: string
  abs_url :: string

text \<open>
  \<open>find("a", href=f)\<close>: the first anchor, in document order, whose \<open>href\<close> attribute is
  present and passes the filter; its \<open>href\<close> and its stripped text.
\<close>

fun find_link :: "(string \<Rightarrow> bool) \<Rightarrow> anchor list \<Rightarrow> (string \<times> string) option" where
  "find_link f [] = None"
| "find_link f (a # as) =
     (case href a of
        None \<Rightarrow> find_link f as
      | Some x \<Rightarrow> if f x then Some (x, link_text a) else find_link f as)"

text \<open>The two filters: \<open>x and "arxiv.org/abs" in x\<close> and \<open>x and x.endswith(".pdf")\<close>.\<close>

definition is_abs_href :: "string \<Rightarrow> bool" where
  "is_abs_href x = (x \<noteq> [] \<and> contains ''arxiv.org/abs'' x)"

definition is_pdf_href :: "string \<Rightarrow> bool" where
  "is_pdf_href x = (x \<noteq> [] \<and> endswith x ''.pdf'')"

definition parse_paper :: "paper_div \<Rightarrow> error + paper" where
  "parse_paper d =
     (case h4_paper_row d of
        None \<Rightarrow> Inl (ValueError ''Could not find paper title'')
      | Some raw_title \<Rightarrow>
     (case split_once CHR ''.'' raw_title of
        None \<Rightarrow> Inl (ValueError ''not enough values to unpack (expected 2, got 1)'')
      | Some (rank_str, title0) \<Rightarrow>
     (case p_paper_row d of
        None \<Rightarrow> Inl (ValueError ''Could not find authors'')
      | Some authors0 \<Rightarrow>
     (case find_link is_abs_href (anchors d) of
        None \<Rightarrow> Inl (ValueError ''Could not find arXiv abstract link'')
      | Some (abs_href, abs_text) \<Rightarrow>
     (case find_link is_pdf_href (anchors d) of
        None \<Rightarrow> Inl (ValueError ''Could not find PDF link'')
      | Some (pdf_href, pdf_text) \<Rightarrow>
          let arxiv_version0 = abs_text;
              arxiv_id0 = hd (split_on CHR ''v'' arxiv_version0);
              abstract0 = (case abstract_field d of None \<Rightarrow> [] | Some t \<Rightarrow> t)
          in (case py_int rank_str of
                None \<Rightarrow> Inl (ValueError ''invalid literal for int() with base 10'')
              | Some r \<Rightarrow>
                  Inr \<lparr> rank = r, title = strip title0, authors = authors0,
                        abstract = abstract0, arxiv_id = arxiv_id0,
                        arxiv_version = arxiv_version0,
                        pdf_url = pdf_href, abs_url = abs_href \<rparr>))))))"

text \<open>
  The site as the client sees it.  Each field is the outcome of one request of the
  source, after \<open>raise_for_status\<close> and after BeautifulSoup has read the body:
  \<^item> \<open>get_login\<close>: the login page, and the value of its \<open>csrf_token\<close> input if there is one;
  \<^item> \<open>post_login\<close>: the answer to the posted credentials and token, and whether its text
    contains \<open>Logout\<close>;
  \<^item> \<open>get_listing\<close>: the page at a URL, as its \<open>div\<close> elements of class \<open>paper\<close> in
    document order;
  \<^item> \<open>today\<close>: \<open>datetime.now().strftime("%Y-%m-%d")\<close>.
\<close>

record site =
  get_login :: "error + string option"
  post_login :: "string \<Rightarrow> error + bool"
  get_listing :: "string \<Rightarrow> error + paper_div list"
  today :: string

text \<open>
  The client: the flag \<open>_logged_in\<close>, and the URLs it has asked the site for, oldest
  first (the record of what \<open>self.session\<close> has sent).
\<close>

record client =
  logged_in :: bool
  requested :: "string list"

definition login_url :: string where
  "login_url = ''https://www.benty-fields.com/login''"

definition login :: "site \<Rightarrow> client \<Rightarrow> error + client" where
  "login st c =
     (case get_login st of
        Inl e \<Rightarrow> Inl e
      | Inr None \<Rightarrow> Inl (RuntimeError ''Could not find CSRF token on login page'')
      | Inr (Some csrf_token) \<Rightarrow>
          (case post_login st csrf_token of
             Inl e \<Rightarrow> Inl e
           | Inr has_logout \<Rightarrow>
               if \<not> has_logout then Inl (RuntimeError ''Login failed - check credentials'')
               else Inr (c\<lparr>logged_in := True,
                           requested := requested c @ [login_url, login_url]\<rparr>)))"

definition ensure_logged_in :: "site \<Rightarrow> client \<Rightarrow> error + client" where
  "ensure_logged_in st c = (if \<not> logged_in c then login st c else Inr c)"

text \<open>The loop of \<open>fetch_daily_papers\<close>: a block that fails to parse is skipped.\<close>

fun parse_loop :: "paper list \<Rightarrow> paper_div list \<Rightarrow> paper list" where
  "parse_loop papers [] = papers"
| "parse_loop papers (paper_div # rest) =
     (case parse_paper paper_div of
        Inr paper_info \<Rightarrow> parse_loop (papers @ [paper_info]) rest
      | Inl e \<Rightarrow> parse_loop papers rest)"

definition listing_url :: "string \<Rightarrow> string" where
  "listing_url date = ''https://www.benty-fields.com/daily_arXiv_results?date='' @ date"

text \<open>
  The URL that \<open>fetch_daily_papers\<close> asks for: today's date stands in for a date that is
  \<open>None\<close>, and the date is put into the URL as the f-string formats it.
\<close>

definition listing_request :: "site \<Rightarrow> pyval \<Rightarrow> string" where
  "listing_request st date =
     (let date1 = (if date = PyNone then PyStr (today st) else date)
      in listing_url (format_val date1))"

definition fetch_daily_papers ::
  "site \<Rightarrow> client \<Rightarrow> pyval \<Rightarrow> int \<Rightarrow> error + (paper list \<times> client)" where
  "fetch_daily_papers st c date num_papers =
     (case ensure_logged_in st c of
        Inl e \<Rightarrow> Inl e
      | Inr c1 \<Rightarrow>
          let url = listing_request st date;
              c2 = c1\<lparr>requested := requested c1 @ [url]\<rparr>
          in (case get_listing st url of
                Inl e \<Rightarrow> Inl e
              | Inr divs \<Rightarrow> Inr (parse_loop [] (slice_to num_papers divs), c2)))"

section \<open>The date of the tool call (server.py)\<close>

text \<open>
  The first lines of the branch \<open>fetch_daily_papers\<close> of \<open>call_tool\<close>: \<open>arg\<close> is
  \<open>arguments.get("date")\<close> and \<open>cfg\<close> is \<open>config.get("date")\<close>, which is read only when
  the argument is absent.  The number of papers, which the source takes from the arguments
  or from the configuration, is a parameter of \<open>call_tool_fetch\<close>.
\<close>

definition tool_date :: "string \<Rightarrow> pyval \<Rightarrow> pyval \<Rightarrow> pyval" where
  "tool_date now arg cfg =
     (if arg = PyNone then
        (if cfg = PyNone then PyStr now
         else (case cfg of
                 PyInt i \<Rightarrow>
                   (let date_str = str_int i
                    in if length date_str = 8
                       then PyStr (take 4 date_str @ ''-'' @ take 2 (drop 4 date_str) @ ''-''
                                   @ take 2 (drop 6 date_str))
                       else cfg)
               | _ \<Rightarrow> cfg))
      else arg)"

definition call_tool_fetch ::
  "site \<Rightarrow> client \<Rightarrow> pyval \<Rightarrow> pyval \<Rightarrow> int \<Rightarrow> error + (paper list \<times> client)" where
  "call_tool_fetch st c arg cfg num_papers =
     fetch_daily_papers st c (tool_date (today st) arg cfg) num_papers"

section \<open>Downloading and converting PDFs (pdf_processor.py)\<close>

text \<open>
  A path is the text of a \<open>Path\<close> object.  What the libraries do is a parameter of the
  model, collected in the record \<open>platform\<close>:
  \<^item> \<open>path_join d name\<close> is \<open>d / name\<close> and \<open>with_suffix_md p\<close> is \<open>p.with_suffix(".md")\<close>;
  \<^item> \<open>http_get url\<close> is the answer of \<open>requests.get(url, stream=True)\<close>: \<open>None\<close> when
    the call itself raises, otherwise whether the status is a success, the chunks that
    \<open>iter_content\<close> yields and whether the body ends regularly (\<open>complete\<close>) or the
    iteration raises after the last of these chunks;
  \<^item> \<open>can_open p\<close> says whether \<open>open(p, "w")\<close> succeeds;
  \<^item> the three flags are the module's \<open>..._AVAILABLE\<close> constants;
  \<^item> \<open>fitz_open\<close>, \<open>pdfplumber_open\<close> and \<open>to_markdown\<close> are the three libraries applied
    to the content of a file: each may raise (\<open>Inl\<close> with the exception's text), and a
    page of a document may raise when its text is read.
  An exception that comes out of a library is the value \<open>LibraryError\<close>; the exceptions that
  the source raises itself keep their class.
\<close>

type_synonym path = string

type_synonym exn = string

record stream =
  status_ok :: bool
  chunks :: "string list"
  complete :: bool

record platform =
  path_join :: "path \<Rightarrow> string \<Rightarrow> path"
  with_suffix_md :: "path \<Rightarrow> path"
  http_get :: "string \<Rightarrow> stream option"
  can_open :: "path \<Rightarrow> bool"
  PYMUPDF_AVAILABLE :: bool
  PDFPLUMBER_AVAILABLE :: bool
  PYMUPDF4LLM_AVAILABLE :: bool
  fitz_open :: "string \<Rightarrow> exn + (exn + string) list"
  pdfplumber_open :: "string \<Rightarrow> exn + (exn + string option) list"
  to_markdown :: "string \<Rightarrow> exn + string"

text \<open>
  The world outside the process: the files with their content, the URLs requested from the
  network and the PDF paths handed to the markdown converter, both oldest first.
\<close>

record world =
  files :: "path \<rightharpoonup> string"
  downloads :: "string list"
  conversions :: "path list"

definition exists_path :: "world \<Rightarrow> path \<Rightarrow> bool" where
  "exists_path w p = (files w p \<noteq> None)"

text \<open>The name \<open>download_pdf\<close> chooses when no path is given.\<close>

definition default_filename :: "string \<Rightarrow> string" where
  "default_filename url =
     (let filename = last (split_on CHR ''/'' url)
      in if \<not> endswith filename ''.pdf'' then filename @ ''.pdf'' else filename)"

text \<open>The loop over \<open>iter_content\<close>: every chunk that is not empty is written.\<close>

fun write_chunks :: "string \<Rightarrow> string list \<Rightarrow> string" where
  "write_chunks f [] = f"
| "write_chunks f (chunk # rest) =
     (if chunk \<noteq> [] then write_chunks (f @ chunk) rest else write_chunks f rest)"

definition download_pdf ::
  "platform \<Rightarrow> path \<Rightarrow> string \<Rightarrow> path option \<Rightarrow> world \<Rightarrow> (error + path) \<times> world" where
  "download_pdf pf tmp_dir url save_path0 w =
     (let save_path = (case save_path0 of
                         None \<Rightarrow> path_join pf tmp_dir (default_filename url)
                       | Some p \<Rightarrow> p)
      in if exists_path w save_path then (Inr save_path, w)
         else
           let w1 = w\<lparr>downloads := downloads w @ [url]\<rparr>
           in (case http_get pf url of
                 None \<Rightarrow> (Inl ConnectionError, w1)
               | Some r \<Rightarrow>
                   if \<not> status_ok r then (Inl HTTPError, w1)
                   else if \<not> can_open pf save_path then (Inl OSError, w1)
                   else
                     let w2 = w1\<lparr>files := (files w1)(save_path \<mapsto> write_chunks [] (chunks r))\<rparr>
                     in if complete r then (Inr save_path, w2)
                        else (Inl ConnectionError, w2)))"

definition download_paper_pdf ::
  "platform \<Rightarrow> path \<Rightarrow> paper \<Rightarrow> world \<Rightarrow> (error + path) \<times> world" where
  "download_paper_pdf pf tmp_dir paper0 w =
     (let pdf_path = path_join pf tmp_dir (arxiv_id paper0 @ ''.pdf'')
      in if exists_path w pdf_path then (Inr pdf_path, w)
         else download_pdf pf tmp_dir (pdf_url paper0) (Some pdf_path) w)"

text \<open>
  \<open>extract_text\<close>.  The variable \<open>text\<close> is shared by the two attempts: what PyMuPDF has
  added before it fails is still there when pdfplumber adds its pages.  Each loop returns
  the text it has reached and the exception that stopped it, if any.
\<close>

fun fitz_loop :: "string \<Rightarrow> (exn + string) list \<Rightarrow> string \<times> exn option" where
  "fitz_loop text [] = (text, None)"
| "fitz_loop text (page # pages) =
     (case page of
        Inl e \<Rightarrow> (text, Some e)
      | Inr t \<Rightarrow> fitz_loop (text @ t) pages)"

fun plumber_loop :: "string \<Rightarrow> (exn + string option) list \<Rightarrow> string \<times> exn option" where
  "plumber_loop text [] = (text, None)"
| "plumber_loop text (page # pages) =
     (case page of
        Inl e \<Rightarrow> (text, Some e)
      | Inr None \<Rightarrow> plumber_loop text pages
      | Inr (Some page_text) \<Rightarrow>
          if page_text \<noteq> [] then plumber_loop (text @ page_text @ [CHR 0x0A]) pages
          else plumber_loop text pages)"

definition try_pymupdf :: "platform \<Rightarrow> string \<Rightarrow> string \<Rightarrow> string \<times> exn option" where
  "try_pymupdf pf content text =
     (case fitz_open pf content of
        Inl e \<Rightarrow> (text, Some e)
      | Inr doc \<Rightarrow> fitz_loop text doc)"

definition try_pdfplumber :: "platform \<Rightarrow> string \<Rightarrow> string \<Rightarrow> string \<times> exn option" where
  "try_pdfplumber pf content text =
     (case pdfplumber_open pf content of
        Inl e \<Rightarrow> (text, Some e)
      | Inr pdf \<Rightarrow> plumber_loop text pdf)"

datatype backend = PyMuPDF | Pdfplumber

text \<open>
  The second half of \<open>extract_text\<close>, from the comment \<open>Fall back to pdfplumber\<close> on.
  The list is the backends tried so far, in the order of the attempts.
\<close>

definition fall_back ::
  "platform \<Rightarrow> string \<Rightarrow> string \<Rightarrow> backend list \<Rightarrow> (error + string) \<times> backend list" where
  "fall_back pf content text tried =
     (if PDFPLUMBER_AVAILABLE pf then
        (case try_pdfplumber pf content text of
           (text2, None) \<Rightarrow> (Inr text2, tried @ [Pdfplumber])
         | (text2, Some e) \<Rightarrow> (Inl (LibraryError e), tried @ [Pdfplumber]))
      else (Inl (RuntimeError ''No PDF extraction library available''), tried))"

definition extract_text ::
  "platform \<Rightarrow> world \<Rightarrow> path \<Rightarrow> (error + string) \<times> backend list" where
  "extract_text pf w pdf_path =
     (case files w pdf_path of
        None \<Rightarrow> (Inl (FileNotFoundError pdf_path), [])
      | Some content \<Rightarrow>
          if PYMUPDF_AVAILABLE pf then
            (case try_pymupdf pf content [] of
               (text, None) \<Rightarrow> (Inr text, [PyMuPDF])
             | (text, Some e) \<Rightarrow> fall_back pf content text [PyMuPDF])
          else fall_back pf content [] [])"

definition convert_to_markdown ::
  "platform \<Rightarrow> path \<Rightarrow> world \<Rightarrow> (error + string) \<times> world" where
  "convert_to_markdown pf pdf_path w =
     (case files w pdf_path of
        None \<Rightarrow> (Inl (FileNotFoundError pdf_path), w)
      | Some content \<Rightarrow>
          if \<not> PYMUPDF4LLM_AVAILABLE pf
          then (Inl (RuntimeError
                 ''pymupdf4llm is not available. Please install it: pip install pymupdf4llm''), w)
          else
            let w1 = w\<lparr>conversions := conversions w @ [pdf_path]\<rparr>
            in (case to_markdown pf content of
                  Inl e \<Rightarrow> (Inl (RuntimeError (''PDF to Markdown conversion failed: '' @ e)), w1)
                | Inr markdown \<Rightarrow> (Inr markdown, w1)))"

definition get_markdown_path :: "platform \<Rightarrow> path \<Rightarrow> path" where
  "get_markdown_path pf pdf_path = with_suffix_md pf pdf_path"

definition convert_and_save_markdown ::
  "platform \<Rightarrow> path \<Rightarrow> path option \<Rightarrow> world \<Rightarrow> (error + path) \<times> world" where
  "convert_and_save_markdown pf pdf_path markdown_path0 w =
     (let markdown_path = (case markdown_path0 of
                             None \<Rightarrow> get_markdown_path pf pdf_path
                           | Some p \<Rightarrow> p)
      in if exists_path w markdown_path then (Inr markdown_path, w)
         else
           (case convert_to_markdown pf pdf_path w of
              (Inl e, w1) \<Rightarrow> (Inl e, w1)
            | (Inr markdown, w1) \<Rightarrow>
                if \<not> can_open pf markdown_path then (Inl OSError, w1)
                else (Inr markdown_path,
                      w1\<lparr>files := (files w1)(markdown_path \<mapsto> markdown)\<rparr>)))"

section \<open>The content block of the summary (generate_summary.py)\<close>

text \<open>
  The lines that \<open>generate_daily_summary\<close> adds for the content of one paper: the block
  for markdown content, with its preview, and the block for extracted text.
\<close>

definition truncation_marker :: string where
  "truncation_marker =
     [CHR 0x0A, CHR 0x0A] @ ''... (truncated, full content available in Markdown file)''"

definition content_preview :: "string \<Rightarrow> string" where
  "content_preview markdown_content =
     (let preview = take 10000 markdown_content
      in if length markdown_content > 10000 then preview @ truncation_marker else preview)"

definition markdown_block :: "string \<Rightarrow> path \<Rightarrow> string list" where
  "markdown_block markdown_content md_path =
     [''**Paper Content (Markdown):**'', '''', ''```markdown'',
      content_preview markdown_content,
      ''```'', '''', ''*Full Markdown file: '' @ md_path @ ''*'', '''']"

definition text_preview :: "string \<Rightarrow> string" where
  "text_preview text = take 5000 text @ (if length text > 5000 then ''...'' else '''')"

definition text_block :: "string \<Rightarrow> string list" where
  "text_block text = [''**Extracted PDF Text:**'', '''', ''```'', text_preview text, ''```'', '''']"

section \<open>Notions used in the statements\<close>

text \<open>A block is well formed when \<open>_parse_paper\<close> makes a record of it.\<close>

definition well_formed :: "paper_div \<Rightarrow> bool" where
  "well_formed d = (\<exists>p. parse_paper d = Inr p)"

text \<open>
  The number that the heading of a block carries: \<open>int(rank_str)\<close> for the text before the
  first full stop, when there is a heading, a full stop and a number.
\<close>

definition heading_rank :: "paper_div \<Rightarrow> int option" where
  "heading_rank d =
     (case h4_paper_row d of
        None \<Rightarrow> None
      | Some raw_title \<Rightarrow>
          (case split_once CHR ''.'' raw_title of
             None \<Rightarrow> None
           | Some (rank_str, title0) \<Rightarrow> py_int rank_str))"

definition heading_rank_less :: "paper_div \<Rightarrow> paper_div \<Rightarrow> bool" where
  "heading_rank_less d e =
     (case (heading_rank d, heading_rank e) of
        (Some a, Some b) \<Rightarrow> a < b
      | _ \<Rightarrow> False)"

text \<open>
  A block lacks a link to a PDF when none of its anchors has an \<open>href\<close> that is not empty
  and ends in \<open>.pdf\<close>.
\<close>

definition lacks_pdf_link :: "paper_div \<Rightarrow> bool" where
  "lacks_pdf_link d =
     (\<forall>a\<in>set (anchors d).
        case href a of
          None \<Rightarrow> True
        | Some x \<Rightarrow> x = [] \<or> \<not> endswith x ''.pdf'')"

text \<open>
  A backend fails on the content of a file when the library cannot open the document or
  one of the pages raises when its text is read.
\<close>

fun backend_fails :: "platform \<Rightarrow> string \<Rightarrow> backend \<Rightarrow> bool" where
  "backend_fails pf content PyMuPDF =
     (case fitz_open pf content of
        Inl e \<Rightarrow> True
      | Inr doc \<Rightarrow> (\<exists>page\<in>set doc. isl page))"
| "backend_fails pf content Pdfplumber =
     (case pdfplumber_open pf content of
        Inl e \<Rightarrow> True
      | Inr pdf \<Rightarrow> (\<exists>page\<in>set pdf. isl page))"

text \<open>
  The text of the pages of a document, for each of the two libraries: PyMuPDF gives the
  text of every page, pdfplumber gives a text or \<open>None\<close>, and a text that is not empty
  is followed by a line feed.  A page that raises has no text.
\<close>

definition pages_text :: "(exn + string) list \<Rightarrow> string" where
  "pages_text doc = concat (map (\<lambda>page. case page of Inl e \<Rightarrow> [] | Inr t \<Rightarrow> t) doc)"

definition plumber_pages_text :: "(exn + string option) list \<Rightarrow> string" where
  "plumber_pages_text pdf =
     concat (map (\<lambda>page. case page of
                            Inl e \<Rightarrow> []
                          | Inr None \<Rightarrow> []
                          | Inr (Some t) \<Rightarrow> if t \<noteq> [] then t @ [CHR 0x0A] else []) pdf)"

text \<open>
  The text of the pages that PyMuPDF has read before a page raises: all of it when no page
  raises, none when the document cannot be opened.
\<close>

definition text_before_failure :: "platform \<Rightarrow> string \<Rightarrow> string" where
  "text_before_failure pf content =
     (case fitz_open pf content of
        Inl e \<Rightarrow> []
      | Inr doc \<Rightarrow> pages_text (takeWhile (\<lambda>page. \<not> isl page) doc))"

section \<open>Example data\<close>

text \<open>
  A block as the listing shows a paper: a heading, an authors line, the link to the
  abstract with the version label as its text, the link to the PDF and an abstract.  The
  second kind of block has no link to a PDF.
\<close>

definition block :: "string \<Rightarrow> string \<Rightarrow> paper_div" where
  "block heading version =
     \<lparr> h4_paper_row = Some heading,
       p_paper_row = Some ''A. Author'',
       anchors = [\<lparr> href = Some (''https://arxiv.org/abs/'' @ version), link_text = version \<rparr>,
                  \<lparr> href = Some (''https://arxiv.org/pdf/'' @ version @ ''.pdf''),
                    link_text = ''pdf'' \<rparr>],
       abstract_field = Some ''Abstract.'' \<rparr>"

definition block_without_pdf :: "string \<Rightarrow> string \<Rightarrow> paper_div" where
  "block_without_pdf heading version =
     \<lparr> h4_paper_row = Some heading,
       p_paper_row = Some ''A. Author'',
       anchors = [\<lparr> href = Some (''https://arxiv.org/abs/'' @ version), link_text = version \<rparr>],
       abstract_field = Some ''Abstract.'' \<rparr>"

text \<open>The record that \<open>_parse_paper\<close> makes of such a block.\<close>

definition record_of :: "int \<Rightarrow> string \<Rightarrow> string \<Rightarrow> string \<Rightarrow> paper" where
  "record_of r t ident version =
     \<lparr> rank = r, title = t, authors = ''A. Author'', abstract = ''Abstract.'',
       arxiv_id = ident, arxiv_version = version,
       pdf_url = ''https://arxiv.org/pdf/'' @ version @ ''.pdf'',
       abs_url = ''https://arxiv.org/abs/'' @ version \<rparr>"

text \<open>A site that accepts the login and serves the same blocks at every URL.\<close>

definition site_with :: "paper_div list \<Rightarrow> site" where
  "site_with divs =
     \<lparr> get_login = Inr (Some ''token''),
       post_login = (\<lambda>t. Inr True),
       get_listing = (\<lambda>u. Inr divs),
       today = ''2026-01-09'' \<rparr>"

definition new_client :: client where
  "new_client = \<lparr> logged_in = False, requested = [] \<rparr>"

definition logged_in_client :: client where
  "logged_in_client = \<lparr> logged_in = True, requested = [login_url, login_url] \<rparr>"

text \<open>
  Three pages: one with the ranks in order, one with two well-formed blocks whose headings
  carry the ranks 2 and 1, and one whose first block has no link to a PDF.
\<close>

definition page_123 :: "paper_div list" where
  "page_123 = [block ''1. First'' ''2601.00001v1'', block ''2. Second'' ''2601.00002v3'',
               block ''3. Third'' ''2601.00003v1'']"

definition page_21 :: "paper_div list" where
  "page_21 = [block ''2. Second'' ''2601.00002v3'', block ''1. First'' ''2601.00001v1'']"

definition page_bad_23 :: "paper_div list" where
  "page_bad_23 = [block_without_pdf ''1. First'' ''2601.00001v1'',
                  block ''2. Second'' ''2601.00002v3'', block ''3. Third'' ''2601.00003v1'']"

definition request_0109 :: string where
  "request_0109 = ''https://www.benty-fields.com/daily_arXiv_results?date=2026-01-09''"

text \<open>
  Two more pages: one whose second block has no link to a PDF, and one whose first block has
  none while its second block is well formed.
\<close>

definition page_1_bad_3 :: "paper_div list" where
  "page_1_bad_3 = [block ''1. First'' ''2601.00001v1'',
                   block_without_pdf ''2. Second'' ''2601.00002v3'',
                   block ''3. Third'' ''2601.00003v1'']"

definition page_bad_2 :: "paper_div list" where
  "page_bad_2 = [block_without_pdf ''1. First'' ''2601.00001v1'',
                 block ''2. Second'' ''2601.00002v3'']"

text \<open>
  A platform for the examples: paths are joined with a slash, every file can be opened, the
  three libraries are installed, and the network gives the same answer for every URL.
  PyMuPDF fails on the second page of a file with the content \<open>%PDF scanned\<close>.
\<close>

definition example_platform :: "stream option \<Rightarrow> platform" where
  "example_platform answer =
     \<lparr> path_join = (\<lambda>d name. d @ ''/'' @ name),
       with_suffix_md =
         (\<lambda>p. (if endswith p ''.pdf'' then take (length p - 4) p else p) @ ''.md''),
       http_get = (\<lambda>url. answer),
       can_open = (\<lambda>p. True),
       PYMUPDF_AVAILABLE = True,
       PDFPLUMBER_AVAILABLE = True,
       PYMUPDF4LLM_AVAILABLE = True,
       fitz_open =
         (\<lambda>content. if content = ''%PDF scanned''
                     then Inr [Inr ''Page one. '', Inl ''cannot read page'']
                     else Inr [Inr content]),
       pdfplumber_open = (\<lambda>content. Inr [Inr (Some ''Page one''), Inr None, Inr (Some ''Page two'')]),
       to_markdown = (\<lambda>content. Inr (''# '' @ content)) \<rparr>"

definition empty_world :: world where
  "empty_world = \<lparr> files = Map.empty, downloads = [], conversions = [] \<rparr>"

definition example_paper :: paper where
  "example_paper = record_of 1 ''First'' ''2601.00001'' ''2601.00001v1''"

definition cache_dir :: path where
  "cache_dir = ''/tmp/benty_arxiv_pdfs''"

definition cached_pdf :: path where
  "cached_pdf = ''/tmp/benty_arxiv_pdfs/2601.00001.pdf''"

definition cached_md :: path where
  "cached_md = ''/tmp/benty_arxiv_pdfs/2601.00001.md''"

definition example_url :: string where
  "example_url = ''https://arxiv.org/pdf/2601.00001v1.pdf''"

text \<open>
  Three answers of the network: the whole body, the status 404, and a body whose stream
  breaks after two chunks.
\<close>

definition whole_body :: stream where
  "whole_body = \<lparr> status_ok = True, chunks = [''%PDF-1.7 '', '''', ''body''], complete = True \<rparr>"

definition not_found :: stream where
  "not_found = \<lparr> status_ok = False, chunks = [], complete = True \<rparr>"

definition broken_body :: stream where
  "broken_body = \<lparr> status_ok = True, chunks = [''%PDF-1.7 '', ''first half''], complete = False \<rparr>"

section \<open>Properties of the string functions\<close>

lemma split_on_nonempty: "split_on c s \<noteq> []"
  by (induction s) (auto split: list.splits)

lemma split_on_no_sep: "w \<in> set (split_on c s) \<Longrightarrow> c \<notin> set w"
  by (induction s arbitrary: w) (auto split: list.splits if_splits)

lemma hd_split_on: "hd (split_on c s) = takeWhile (\<lambda>x. x \<noteq> c) s"
  by (induction s) (auto simp: split_on_nonempty split: list.splits)

lemma split_on_absent: "c \<notin> set s \<Longrightarrow> split_on c s = [s]"
  by (induction s) auto

lemma split_on_single: "split_on c s = [w] \<Longrightarrow> s = w"
  by (induction s arbitrary: w) (auto simp: split_on_nonempty split: list.splits if_splits)

text \<open>
  The last element of \<open>s.split(c)\<close> is the end of \<open>s\<close> after its last \<open>c\<close>: what stands
  before it is empty or ends with \<open>c\<close>, and it holds no \<open>c\<close> itself.
\<close>

lemma last_split_on_suffix:
  "\<exists>pre. s = pre @ last (split_on c s) \<and> (pre = [] \<or> last pre = c)"
proof (induction s)
  case Nil
  then show ?case by simp
next
  case (Cons x xs)
  then obtain pre where pre: "xs = pre @ last (split_on c xs)" "pre = [] \<or> last pre = c"
    by blast
  show ?case
  proof (cases "x = c")
    case True
    have "x # xs = (x # pre) @ last (split_on c (x # xs))"
      using pre(1) True by (simp add: split_on_nonempty)
    moreover have "last (x # pre) = c" using pre(2) True by auto
    ultimately show ?thesis by blast
  next
    case False
    obtain w ws where sp: "split_on c xs = w # ws"
      using split_on_nonempty [of c xs] by (cases "split_on c xs") auto
    show ?thesis
    proof (cases ws)
      case Nil
      then have "last (split_on c (x # xs)) = x # w" using sp False by simp
      moreover have "xs = w" using split_on_single sp Nil by simp
      ultimately have "x # xs = [] @ last (split_on c (x # xs))" by simp
      then show ?thesis by blast
    next
      case (Cons a list)
      then have l: "last (split_on c (x # xs)) = last (split_on c xs)"
        using sp False by simp
      have "pre \<noteq> []"
      proof
        assume "pre = []"
        then have "xs = last (split_on c xs)" using pre(1) by simp
        then have "c \<notin> set xs"
          using split_on_no_sep [of "last (split_on c xs)" c xs] split_on_nonempty [of c xs]
          by (metis last_in_set)
        then show False using split_on_absent [of c xs] sp Cons by simp
      qed
      then have "last (x # pre) = c" using pre(2) by simp
      moreover have "x # xs = (x # pre) @ last (split_on c (x # xs))"
        using pre(1) l by simp
      ultimately show ?thesis by blast
    qed
  qed
qed

lemma last_split_on_no_sep: "c \<notin> set (last (split_on c s))"
  using split_on_no_sep [of "last (split_on c s)" c s] split_on_nonempty [of c s]
  by simp

lemma endswith_append: "endswith (s @ suf) suf"
  by (simp add: endswith_def)

section \<open>Properties of the listing parser\<close>

lemmas parse_defs = parse_paper_def block_def block_without_pdf_def record_of_def split_once_def
  is_abs_href_def is_pdf_href_def endswith_def py_int_def digits_value_def
  int_max_str_digits_def strip_def is_space_def is_int_space_def is_digit_def digit_val_def

text \<open>
  The white space of \<open>int()\<close> and of \<open>strip()\<close> at the characters where the two differ
  from each other and from the white space of ASCII.
\<close>

lemma py_int_separator: "py_int (''1'' @ [CHR 0x1C]) = None"
  by (simp add: parse_defs)

lemma py_int_no_break_space: "py_int (''1'' @ [CHR 0xA0]) = Some 1"
  by (simp add: parse_defs)

lemma py_int_next_line: "py_int ([CHR 0x85] @ ''+1_0 '') = Some 10"
  by (simp add: parse_defs)

lemma strip_no_break_space: "strip ([CHR 0xA0] @ ''First'' @ [CHR 0x1C, CHR 0x85]) = ''First''"
  by (simp add: parse_defs)

lemma heading_with_separator_malformed:
  "\<not> well_formed (block (''1'' @ [CHR 0x1C] @ ''. First'') ''2601.00001v1'')"
  by (simp add: well_formed_def parse_defs)

lemma heading_with_no_break_space:
  "parse_paper (block (''1'' @ [CHR 0xA0] @ ''.'' @ [CHR 0xA0] @ ''First'') ''2601.00001v1'')
     = Inr (record_of 1 ''First'' ''2601.00001'' ''2601.00001v1'')"
  by (simp add: parse_defs)

lemma digits_value_limit:
  "digits_value (replicate 4300 CHR ''0'' @ ''7'') = None"
  by (simp add: digits_value_def int_max_str_digits_def is_digit_def)

lemma parse_block_1:
  "parse_paper (block ''1. First'' ''2601.00001v1'')
     = Inr (record_of 1 ''First'' ''2601.00001'' ''2601.00001v1'')"
  by (simp add: parse_defs)

lemma parse_block_2:
  "parse_paper (block ''2. Second'' ''2601.00002v3'')
     = Inr (record_of 2 ''Second'' ''2601.00002'' ''2601.00002v3'')"
  by (simp add: parse_defs)

lemma parse_block_3:
  "parse_paper (block ''3. Third'' ''2601.00003v1'')
     = Inr (record_of 3 ''Third'' ''2601.00003'' ''2601.00003v1'')"
  by (simp add: parse_defs)

lemma parse_block_without_pdf:
  "parse_paper (block_without_pdf ''1. First'' ''2601.00001v1'')
     = Inl (ValueError ''Could not find PDF link'')"
  by (simp add: parse_defs)

lemma login_new_client: "ensure_logged_in (site_with divs) new_client = Inr logged_in_client"
  by (simp add: ensure_logged_in_def login_def site_with_def new_client_def
      logged_in_client_def)

text \<open>The loop adds to what it was given, so it can be read from an empty list.\<close>

lemma parse_loop_append: "parse_loop acc ds = acc @ parse_loop [] ds"
proof (induction ds arbitrary: acc)
  case Nil
  show ?case by simp
next
  case (Cons d ds)
  show ?case
  proof (cases "parse_paper d")
    case (Inl e)
    then show ?thesis using Cons [of acc] by simp
  next
    case (Inr p)
    then show ?thesis using Cons [of "acc @ [p]"] Cons [of "[p]"] by simp
  qed
qed

lemma parse_loop_well_formed:
  "\<forall>d\<in>set ds. well_formed d \<Longrightarrow> map Inr (parse_loop [] ds) = map parse_paper ds"
proof (induction ds)
  case Nil
  show ?case by simp
next
  case (Cons d ds)
  then obtain p where p: "parse_paper d = Inr p" by (auto simp: well_formed_def)
  have "parse_loop [] (d # ds) = [p] @ parse_loop [] ds"
    using p parse_loop_append [of "[p]" ds] by simp
  then show ?case using Cons p by simp
qed

lemma parse_loop_skip:
  "\<not> well_formed d \<Longrightarrow>
     parse_loop [] (pre @ d # post) = parse_loop [] pre @ parse_loop [] post"
proof (induction pre)
  case Nil
  then show ?case by (cases "parse_paper d") (auto simp: well_formed_def)
next
  case (Cons a pre)
  show ?case
  proof (cases "parse_paper a")
    case (Inl e)
    then show ?thesis using Cons by simp
  next
    case (Inr p)
    then show ?thesis
      using Cons parse_loop_append [of "[p]" "pre @ d # post"] parse_loop_append [of "[p]" pre]
      by simp
  qed
qed

lemma parse_rank: "parse_paper d = Inr p \<Longrightarrow> heading_rank d = Some (rank p)"
  by (auto simp: parse_paper_def heading_rank_def Let_def split: option.splits prod.splits)

text \<open>
  What the parser takes for the identifier: the text of the abstract link up to its first
  letter \<open>v\<close>, wherever that letter stands.
\<close>

lemma parse_arxiv_id:
  "parse_paper d = Inr p \<Longrightarrow>
     arxiv_id p = takeWhile (\<lambda>x. x \<noteq> CHR ''v'') (arxiv_version p)"
  by (auto simp: parse_paper_def Let_def hd_split_on split: option.splits prod.splits)

text \<open>What \<open>fetch_daily_papers\<close> returns once the login and the request have succeeded.\<close>

lemma fetch_daily_papers_result:
  assumes "ensure_logged_in st c = Inr c1"
    and "get_listing st (listing_request st date) = Inr divs"
  shows "fetch_daily_papers st c date num_papers
           = Inr (parse_loop [] (slice_to num_papers divs),
                  c1\<lparr>requested := requested c1 @ [listing_request st date]\<rparr>)"
  using assms by (simp add: fetch_daily_papers_def Let_def)

lemma heading_rank_block_1: "heading_rank (block ''1. First'' ''2601.00001v1'') = Some 1"
  using parse_rank [OF parse_block_1] by (simp add: record_of_def)

lemma heading_rank_block_2: "heading_rank (block ''2. Second'' ''2601.00002v3'') = Some 2"
  using parse_rank [OF parse_block_2] by (simp add: record_of_def)

lemma heading_rank_block_3: "heading_rank (block ''3. Third'' ''2601.00003v1'') = Some 3"
  using parse_rank [OF parse_block_3] by (simp add: record_of_def)

lemma get_listing_site_with: "get_listing (site_with divs) u = Inr divs"
  by (simp add: site_with_def)

lemma listing_request_str: "listing_request st (PyStr s) = listing_url s"
  by (simp add: listing_request_def)

section \<open>The destination of a download\<close>

lemmas example_defs = example_platform_def empty_world_def example_paper_def record_of_def
  cache_dir_def cached_pdf_def cached_md_def example_url_def whole_body_def not_found_def
  broken_body_def

lemma default_filename_endswith: "endswith (default_filename url) ''.pdf''"
  unfolding default_filename_def Let_def
  using endswith_append [of "last (split_on CHR ''/'' url)" "''.pdf''"]
  by (simp del: append.simps)

lemma default_filename_no_slash: "CHR ''/'' \<notin> set (default_filename url)"
  using last_split_on_no_sep [of "CHR ''/''" url]
  by (simp add: default_filename_def Let_def)

text \<open>
  The last segment of a string is what follows its last separator, or the whole string
  when it has none.  Every string is made of such a segment and of what stands before it,
  in one way only, and \<open>s.split(c)[-1]\<close> is that segment.
\<close>

lemma last_segment_exists:
  "\<exists>pre seg. (s :: string) = pre @ seg \<and> c \<notin> set seg \<and> (pre = [] \<or> last pre = c)"
  using last_split_on_suffix [of s c] last_split_on_no_sep [of c s] by blast

lemma last_split_on_segment:
  assumes seg: "c \<notin> set seg" and pre: "pre = [] \<or> last pre = c"
  shows "last (split_on c (pre @ seg)) = seg"
proof -
  define l where "l = last (split_on c (pre @ seg))"
  obtain pre' where p: "pre @ seg = pre' @ l" "pre' = [] \<or> last pre' = c"
    using last_split_on_suffix [of "pre @ seg" c] unfolding l_def by blast
  have nl: "c \<notin> set l" unfolding l_def by (rule last_split_on_no_sep)
  from p(1) consider us where "pre = pre' @ us" "us @ seg = l"
    | us where "pre @ us = pre'" "seg = us @ l"
    by (auto simp: append_eq_append_conv2)
  then have "seg = l"
  proof cases
    case 1
    have "us = []"
    proof (rule ccontr)
      assume ne: "us \<noteq> []"
      then have "last pre = last us" using 1(1) by simp
      moreover have "pre \<noteq> []" using 1(1) ne by simp
      ultimately have "last us = c" using pre by simp
      moreover have "last us \<in> set l" using ne 1(2) by auto
      ultimately show False using nl by simp
    qed
    then show ?thesis using 1(2) by simp
  next
    case 2
    have "us = []"
    proof (rule ccontr)
      assume ne: "us \<noteq> []"
      then have "last pre' = last us" using 2(1) by auto
      moreover have "pre' \<noteq> []" using 2(1) ne by auto
      ultimately have "last us = c" using p(2) by simp
      moreover have "last us \<in> set seg" using ne 2(2) by auto
      ultimately show False using seg by simp
    qed
    then show ?thesis using 2(2) by simp
  qed
  then show ?thesis by (simp add: l_def)
qed

text \<open>
  Claim C10.  Let \<open>seg\<close> be the last segment of the URL, the text after its last slash,
  and let \<open>filename\<close> be \<open>seg\<close> when \<open>seg\<close> ends in \<open>.pdf\<close> and \<open>seg\<close> followed by
  \<open>.pdf\<close> otherwise.  Without a path to save to, \<open>download_pdf\<close> uses the name
  \<open>filename\<close>, which holds no slash, and the destination \<open>tmp_dir / filename\<close>, a file
  directly in \<open>tmp_dir\<close>: no other file is touched; a path that is returned is the
  destination, and the file is there; when the file was there before, its path is returned
  and nothing changes; when it was not, the URL is requested, and if the call succeeds the
  file at the destination holds the chunks of the body.
\<close>

theorem download_pdf_default_path:
  assumes out: "download_pdf pf tmp_dir url None w = (res, w1)"
    and url: "url = pre @ seg"
    and seg: "CHR ''/'' \<notin> set seg"
    and pre: "pre = [] \<or> last pre = CHR ''/''"
    and name: "filename = (if endswith seg ''.pdf'' then seg else seg @ ''.pdf'')"
    and dest: "dest = path_join pf tmp_dir filename"
  shows "default_filename url = filename
         \<and> CHR ''/'' \<notin> set filename
         \<and> (\<forall>p'. p' \<noteq> dest \<longrightarrow> files w1 p' = files w p')
         \<and> (\<forall>q. res = Inr q \<longrightarrow> q = dest \<and> exists_path w1 dest)
         \<and> (exists_path w dest \<longrightarrow> res = Inr dest \<and> w1 = w)
         \<and> (\<not> exists_path w dest \<longrightarrow> downloads w1 = downloads w @ [url])
         \<and> (\<not> exists_path w dest \<and> \<not> isl res \<longrightarrow>
               (\<exists>r. http_get pf url = Some r \<and> status_ok r \<and> complete r
                    \<and> files w1 dest = Some (write_chunks [] (chunks r))))"
proof -
  have l: "last (split_on CHR ''/'' url) = seg"
    unfolding url using seg pre by (rule last_split_on_segment)
  have n: "default_filename url = filename"
    using l name by (simp add: default_filename_def Let_def)
  have ns: "CHR ''/'' \<notin> set filename"
    using default_filename_no_slash [of url] n by simp
  have d: "download_pdf pf tmp_dir url (Some dest) w = (res, w1)"
    using out n dest by (simp add: download_pdf_def)
  have others: "\<forall>p'. p' \<noteq> dest \<longrightarrow> files w1 p' = files w p'"
    using d by (auto simp: download_pdf_def Let_def split: option.splits if_splits)
  have returned: "\<forall>q. res = Inr q \<longrightarrow> q = dest \<and> exists_path w1 dest"
    using d by (auto simp: download_pdf_def Let_def exists_path_def split: option.splits if_splits)
  have hit: "exists_path w dest \<longrightarrow> res = Inr dest \<and> w1 = w"
    using d by (auto simp: download_pdf_def Let_def)
  have request: "\<not> exists_path w dest \<longrightarrow> downloads w1 = downloads w @ [url]"
    using d by (auto simp: download_pdf_def Let_def split: option.splits if_splits)
  have written: "\<not> exists_path w dest \<and> \<not> isl res \<longrightarrow>
               (\<exists>r. http_get pf url = Some r \<and> status_ok r \<and> complete r
                    \<and> files w1 dest = Some (write_chunks [] (chunks r)))"
    using d by (auto simp: download_pdf_def Let_def split: option.splits if_splits)
  show ?thesis using n ns others returned hit request written by blast
qed

theorem download_pdf_default_path_witness:
  "download_pdf (example_platform (Some whole_body)) cache_dir
       ''https://arxiv.org/pdf/2601.00001v1'' None empty_world
     = (Inr ''/tmp/benty_arxiv_pdfs/2601.00001v1.pdf'',
        \<lparr>files = [''/tmp/benty_arxiv_pdfs/2601.00001v1.pdf'' \<mapsto> ''%PDF-1.7 body''],
          downloads = [''https://arxiv.org/pdf/2601.00001v1''], conversions = []\<rparr>)
   \<and> ''https://arxiv.org/pdf/2601.00001v1'' = ''https://arxiv.org/pdf/'' @ ''2601.00001v1''
   \<and> CHR ''/'' \<notin> set ''2601.00001v1''
   \<and> last ''https://arxiv.org/pdf/'' = CHR ''/''
   \<and> \<not> endswith ''2601.00001v1'' ''.pdf''
   \<and> path_join (example_platform (Some whole_body)) cache_dir ''2601.00001v1.pdf''
       = ''/tmp/benty_arxiv_pdfs/2601.00001v1.pdf''
   \<and> \<not> exists_path empty_world ''/tmp/benty_arxiv_pdfs/2601.00001v1.pdf''
   \<and> default_filename ''https://arxiv.org/pdf/2601.00001v1'' = ''2601.00001v1.pdf''
   \<and> default_filename ''https://arxiv.org/pdf/2601.00001v1.pdf'' = ''2601.00001v1.pdf''
   \<and> (\<exists>r. http_get (example_platform (Some whole_body)) ''https://arxiv.org/pdf/2601.00001v1''
              = Some r
          \<and> files \<lparr>files = [''/tmp/benty_arxiv_pdfs/2601.00001v1.pdf'' \<mapsto> ''%PDF-1.7 body''],
                    downloads = [''https://arxiv.org/pdf/2601.00001v1''], conversions = []\<rparr>
               ''/tmp/benty_arxiv_pdfs/2601.00001v1.pdf''
             = Some (write_chunks [] (chunks r)))"
proof -
  let ?pf = "example_platform (Some whole_body)"
  let ?url = "''https://arxiv.org/pdf/2601.00001v1''"
  let ?dest = "''/tmp/benty_arxiv_pdfs/2601.00001v1.pdf''"
  let ?w1 = "\<lparr>files = [?dest \<mapsto> ''%PDF-1.7 body''], downloads = [?url], conversions = []\<rparr>"
  have out: "download_pdf ?pf cache_dir ?url None empty_world = (Inr ?dest, ?w1)"
    by (simp add: download_pdf_def default_filename_def endswith_def exists_path_def Let_def
        example_defs)
  have url: "?url = ''https://arxiv.org/pdf/'' @ ''2601.00001v1''" by simp
  have seg: "CHR ''/'' \<notin> set ''2601.00001v1''" by simp
  have pre: "''https://arxiv.org/pdf/'' = [] \<or> last ''https://arxiv.org/pdf/'' = CHR ''/''"
    by simp
  have ne: "\<not> endswith ''2601.00001v1'' ''.pdf''" by (simp add: endswith_def)
  then have name: "''2601.00001v1.pdf''
      = (if endswith ''2601.00001v1'' ''.pdf'' then ''2601.00001v1''
         else ''2601.00001v1'' @ ''.pdf'')"
    by simp
  have dest: "?dest = path_join ?pf cache_dir ''2601.00001v1.pdf''"
    by (simp add: example_defs)
  have miss: "\<not> exists_path empty_world ?dest"
    by (simp add: exists_path_def empty_world_def)
  note t = download_pdf_default_path [OF out url seg pre name dest]
  have n: "default_filename ?url = ''2601.00001v1.pdf''" using t by blast
  have written: "\<exists>r. http_get ?pf ?url = Some r
                     \<and> files ?w1 ?dest = Some (write_chunks [] (chunks r))"
    using t miss by auto
  have n2: "default_filename ''https://arxiv.org/pdf/2601.00001v1.pdf'' = ''2601.00001v1.pdf''"
    by (simp add: default_filename_def endswith_def)
  show ?thesis
    using out seg ne dest miss n n2 written by simp
qed

section \<open>The content block of the summary\<close>

lemma length_truncation_marker: "length truncation_marker = 58"
  by (simp add: truncation_marker_def)

text \<open>
  Claim C6.  The content shown for a paper is the fourth line of its block.  Markdown
  content longer than 10000 characters is cut to its first 10000 characters, followed by
  the marker, so its length is 10000 plus the length of the marker; extracted text
  longer than 5000 characters is cut to its first 5000 characters, followed by the marker
  \<open>...\<close>.  Content that is not longer than the bound is shown as it is, without a marker.
\<close>

theorem truncation_law:
  "markdown_block long_md p ! 3 = content_preview long_md
   \<and> text_block long_text ! 3 = text_preview long_text
   \<and> (10000 < length long_md \<longrightarrow>
        content_preview long_md = take 10000 long_md @ truncation_marker
        \<and> length (content_preview long_md) = 10000 + length truncation_marker)
   \<and> (length short_md \<le> 10000 \<longrightarrow> content_preview short_md = short_md)
   \<and> (5000 < length long_text \<longrightarrow>
        text_preview long_text = take 5000 long_text @ ''...''
        \<and> length (text_preview long_text) = 5000 + length ''...'')
   \<and> (length short_text \<le> 5000 \<longrightarrow> text_preview short_text = short_text)"
  by (simp add: markdown_block_def text_block_def content_preview_def text_preview_def)

theorem truncation_law_witness:
  "10000 < length (replicate 10001 CHR ''x'')
   \<and> content_preview (replicate 10001 CHR ''x'') = replicate 10000 CHR ''x'' @ truncation_marker
   \<and> length (content_preview (replicate 10001 CHR ''x'')) = 10058
   \<and> length ''# Title'' \<le> 10000
   \<and> content_preview ''# Title'' = ''# Title''
   \<and> 5000 < length (replicate 5001 CHR ''y'')
   \<and> text_preview (replicate 5001 CHR ''y'') = replicate 5000 CHR ''y'' @ ''...''
   \<and> length (text_preview (replicate 5001 CHR ''y'')) = 5003
   \<and> length ''Text'' \<le> 5000
   \<and> text_preview ''Text'' = ''Text''"
  using truncation_law [of "replicate 10001 CHR ''x''" "''p''" "replicate 5001 CHR ''y''"
      "''# Title''" "''Text''"]
  by (simp add: length_truncation_marker)

section \<open>Count, order and ranks of a listing\<close>

text \<open>The records that the loop returns are the blocks that parse, in their order.\<close>

lemma parse_loop_filter:
  "map Inr (parse_loop [] ds) = filter (\<lambda>r. \<not> isl r) (map parse_paper ds)"
proof (induction ds)
  case Nil
  show ?case by simp
next
  case (Cons d ds)
  show ?case
  proof (cases "parse_paper d")
    case (Inl e)
    then show ?thesis using Cons by simp
  next
    case (Inr p)
    then show ?thesis using Cons parse_loop_append [of "[p]" ds] by simp
  qed
qed

text \<open>
  Claim C1, as amended.  When the login and the request succeed and the limit \<open>L\<close> is not
  negative, the limit is applied to the blocks of the page before they are parsed:
  \<open>fetch_daily_papers\<close> returns the records of the blocks that parse among the first
  \<open>L\<close> blocks, in the order of the page.  When every block of the page is well formed,
  these are exactly \<open>min N L\<close> records for a page of \<open>N\<close> blocks: the records of the
  first \<open>min N L\<close> blocks, in the order of the page.  The rank of a record is the number
  that the heading of its block carries; so the ranks increase strictly with the position
  on the page when the numbers of the headings do.
\<close>

theorem fetch_well_formed_page:
  assumes login: "ensure_logged_in st c = Inr c1"
    and page: "get_listing st (listing_request st date) = Inr divs"
    and limit: "0 \<le> L"
  shows "\<exists>ps. fetch_daily_papers st c date L
                 = Inr (ps, c1\<lparr>requested := requested c1 @ [listing_request st date]\<rparr>)
             \<and> map Inr ps = filter (\<lambda>r. \<not> isl r) (map parse_paper (take (nat L) divs))
             \<and> ((\<forall>d\<in>set divs. well_formed d) \<longrightarrow>
                  length ps = min (length divs) (nat L)
                  \<and> map Inr ps = map parse_paper (take (nat L) divs)
                  \<and> map (\<lambda>p. Some (rank p)) ps = map heading_rank (take (nat L) divs)
                  \<and> (sorted_wrt heading_rank_less divs \<longrightarrow> sorted_wrt (<) (map rank ps)))"
proof -
  define ws where "ws = take (nat L) divs"
  define ps where "ps = parse_loop [] ws"
  have sl: "slice_to L divs = ws" using limit by (simp add: slice_to_def ws_def)
  have f: "fetch_daily_papers st c date L
          = Inr (ps, c1\<lparr>requested := requested c1 @ [listing_request st date]\<rparr>)"
    using fetch_daily_papers_result [OF login page] sl by (simp add: ps_def)
  have g: "map Inr ps = filter (\<lambda>r. \<not> isl r) (map parse_paper ws)"
    unfolding ps_def by (rule parse_loop_filter)
  have all: "length ps = min (length divs) (nat L)
             \<and> map Inr ps = map parse_paper ws
             \<and> map (\<lambda>p. Some (rank p)) ps = map heading_rank ws
             \<and> (sorted_wrt heading_rank_less divs \<longrightarrow> sorted_wrt (<) (map rank ps))"
    if wf: "\<forall>d\<in>set divs. well_formed d"
  proof -
    have wfw: "\<forall>d\<in>set ws. well_formed d" using wf by (auto simp: ws_def dest: in_set_takeD)
    have m: "map Inr ps = map parse_paper ws"
      unfolding ps_def using wfw by (rule parse_loop_well_formed)
    have len: "length ps = length ws" using m by (metis length_map)
    have each: "parse_paper (ws ! i) = Inr (ps ! i)" if "i < length ws" for i
      using m that len by (metis nth_map)
    have ranks: "map (\<lambda>p. Some (rank p)) ps = map heading_rank ws"
    proof (rule nth_equalityI)
      show "length (map (\<lambda>p. Some (rank p)) ps) = length (map heading_rank ws)"
        using len by simp
    next
      fix i assume "i < length (map (\<lambda>p. Some (rank p)) ps)"
      then have i: "i < length ws" using len by simp
      then show "map (\<lambda>p. Some (rank p)) ps ! i = map heading_rank ws ! i"
        using parse_rank [OF each [OF i]] len by simp
    qed
    have incr: "sorted_wrt (<) (map rank ps)" if s: "sorted_wrt heading_rank_less divs"
    proof -
      have sw: "sorted_wrt heading_rank_less ws"
        using s unfolding ws_def by (rule sorted_wrt_take)
      show ?thesis
        unfolding sorted_wrt_iff_nth_less
      proof (intro allI impI)
        fix i j assume ij: "i < j" "j < length (map rank ps)"
        then have j: "j < length ws" and i: "i < length ws" using len by simp_all
        have "heading_rank_less (ws ! i) (ws ! j)"
          using sw ij(1) j by (simp add: sorted_wrt_iff_nth_less)
        then have "rank (ps ! i) < rank (ps ! j)"
          using parse_rank [OF each [OF i]] parse_rank [OF each [OF j]]
          by (simp add: heading_rank_less_def)
        then show "map rank ps ! i < map rank ps ! j" using i j len by simp
      qed
    qed
    have "length ps = min (length divs) (nat L)" using len by (simp add: ws_def)
    then show ?thesis using m ranks incr by blast
  qed
  show ?thesis using f g all unfolding ws_def by blast
qed

theorem fetch_well_formed_page_witness:
  "ensure_logged_in (site_with page_123) new_client = Inr logged_in_client
   \<and> get_listing (site_with page_123) (listing_request (site_with page_123) (PyStr ''2026-01-09''))
       = Inr page_123
   \<and> well_formed (page_123 ! 0) \<and> well_formed (page_123 ! 1) \<and> well_formed (page_123 ! 2)
   \<and> (0::int) \<le> 2
   \<and> sorted_wrt heading_rank_less page_123
   \<and> (\<exists>ps. fetch_daily_papers (site_with page_123) new_client (PyStr ''2026-01-09'') 2
              = Inr (ps, logged_in_client\<lparr>requested := requested logged_in_client
                     @ [listing_request (site_with page_123) (PyStr ''2026-01-09'')]\<rparr>)
          \<and> length ps = 2
          \<and> map rank ps = [1, 2]
          \<and> sorted_wrt (<) (map rank ps))"
proof -
  have wf: "\<forall>d\<in>set page_123. well_formed d"
    by (simp add: page_123_def well_formed_def parse_block_1 parse_block_2 parse_block_3)
  have s: "sorted_wrt heading_rank_less page_123"
    by (simp add: page_123_def heading_rank_less_def heading_rank_block_1
        heading_rank_block_2 heading_rank_block_3)
  obtain ps where ps:
    "fetch_daily_papers (site_with page_123) new_client (PyStr ''2026-01-09'') 2
       = Inr (ps, logged_in_client\<lparr>requested := requested logged_in_client
               @ [listing_request (site_with page_123) (PyStr ''2026-01-09'')]\<rparr>)"
    "length ps = min (length page_123) (nat 2)"
    "map (\<lambda>p. Some (rank p)) ps = map heading_rank (take (nat 2) page_123)"
    "sorted_wrt heading_rank_less page_123 \<longrightarrow> sorted_wrt (<) (map rank ps)"
    using fetch_well_formed_page [OF login_new_client get_listing_site_with,
        of 2 page_123 "PyStr ''2026-01-09''"] wf
    by auto
  have t: "take (nat 2) page_123
             = [block ''1. First'' ''2601.00001v1'', block ''2. Second'' ''2601.00002v3'']"
    by (simp add: page_123_def numeral_2_eq_2)
  have "map (\<lambda>p. Some (rank p)) ps = [Some 1, Some 2]"
    using ps(3) t by (simp add: heading_rank_block_1 heading_rank_block_2)
  then have r: "map rank ps = [1, 2]" by (auto simp: map_eq_Cons_conv)
  have l: "length ps = 2" using r by (metis length_map length_Cons list.size(3) One_nat_def Suc_1)
  show ?thesis
    using wf s ps(1) ps(4) r l login_new_client [of page_123]
    by (auto simp: page_123_def get_listing_site_with)
qed

text \<open>
  The claim as it was stated fails on two pages.  On the first, both blocks are well formed
  and their headings carry the ranks 2 and 1: the records come back in the order of the
  page with the ranks 2, 1.  On the second, two of the three blocks are well formed and
  the limit is 2: the limit is applied to the blocks before they are parsed, the first
  block has no link to a PDF, and one record comes back, not \<open>min 2 2\<close>.
\<close>

theorem fetch_count_rank_counterexample:
  "fetch_daily_papers (site_with page_21) new_client (PyStr ''2026-01-09'') 10
     = Inr ([record_of 2 ''Second'' ''2601.00002'' ''2601.00002v3'',
             record_of 1 ''First'' ''2601.00001'' ''2601.00001v1''],
            \<lparr>logged_in = True, requested = [login_url, login_url, request_0109]\<rparr>)
   \<and> fetch_daily_papers (site_with page_bad_23) new_client (PyStr ''2026-01-09'') 2
     = Inr ([record_of 2 ''Second'' ''2601.00002'' ''2601.00002v3''],
            \<lparr>logged_in = True, requested = [login_url, login_url, request_0109]\<rparr>)"
  by (simp add: fetch_daily_papers_result [OF login_new_client get_listing_site_with]
      slice_to_def page_21_def page_bad_23_def parse_block_1 parse_block_2 parse_block_3
      parse_block_without_pdf logged_in_client_def listing_request_str listing_url_def
      request_0109_def numeral_2_eq_2)

section \<open>A block that does not parse\<close>

lemma parse_block_2_without_pdf:
  "parse_paper (block_without_pdf ''2. Second'' ''2601.00002v3'')
     = Inl (ValueError ''Could not find PDF link'')"
  by (simp add: parse_defs)

lemma parse_loop_app: "parse_loop [] (xs @ ys) = parse_loop [] xs @ parse_loop [] ys"
proof (induction xs)
  case Nil
  show ?case by simp
next
  case (Cons x xs)
  show ?case
  proof (cases "parse_paper x")
    case (Inl e)
    then show ?thesis using Cons by simp
  next
    case (Inr p)
    then show ?thesis
      using Cons parse_loop_append [of "[p]" "xs @ ys"] parse_loop_append [of "[p]" xs]
      by simp
  qed
qed

text \<open>The first \<open>n\<close> blocks of a page, read around one of its blocks.\<close>

lemma take_around:
  "take n (pre @ bad # post)
     = (if n \<le> length pre then take n pre
        else pre @ bad # take (n - Suc (length pre)) post)"
proof (cases "n \<le> length pre")
  case True
  then show ?thesis by simp
next
  case False
  then obtain k where k: "n - length pre = Suc k" by (cases "n - length pre") auto
  then have "n - Suc (length pre) = k" by simp
  then show ?thesis using False k by simp
qed

lemma parse_loop_window:
  assumes "\<not> well_formed bad"
  shows "parse_loop [] (take n (pre @ bad # post))
           = parse_loop [] (take n pre @ take (n - Suc (length pre)) post)"
proof (cases "n \<le> length pre")
  case True
  then show ?thesis by (simp add: take_around)
next
  case False
  then have "parse_loop [] (take n (pre @ bad # post))
               = parse_loop [] (pre @ bad # take (n - Suc (length pre)) post)"
    by (simp only: take_around if_False)
  also have "\<dots> = parse_loop [] pre @ parse_loop [] (take (n - Suc (length pre)) post)"
    using assms by (rule parse_loop_skip)
  also have "\<dots> = parse_loop [] (take n pre @ take (n - Suc (length pre)) post)"
    using False by (simp add: parse_loop_app)
  finally show ?thesis .
qed

text \<open>No anchor passes the filter exactly when \<open>find\<close> returns \<open>None\<close>.\<close>

lemma find_link_None:
  "find_link f as = None
     \<longleftrightarrow> (\<forall>a\<in>set as. case href a of None \<Rightarrow> True | Some x \<Rightarrow> \<not> f x)"
  by (induction as) (auto split: option.splits)

lemma lacks_pdf_link_find: "lacks_pdf_link d \<longleftrightarrow> find_link is_pdf_href (anchors d) = None"
  unfolding lacks_pdf_link_def find_link_None
  by (rule ball_cong) (auto simp: is_pdf_href_def split: option.splits)

text \<open>A block without a link to a PDF does not parse, whatever else it holds.\<close>

lemma lacks_pdf_link_malformed: "lacks_pdf_link d \<Longrightarrow> \<not> well_formed d"
  by (auto simp: lacks_pdf_link_find well_formed_def parse_paper_def
      split: option.splits prod.splits)

lemma lacks_pdf_link_block_without_pdf:
  "lacks_pdf_link (block_without_pdf ''2. Second'' ''2601.00002v3'')"
  by (simp add: lacks_pdf_link_def block_without_pdf_def endswith_def)

text \<open>
  Claim C3, as amended.  On a page where one block lacks a link to a PDF, or does not parse
  for another reason, and all the others are well formed, \<open>fetch_daily_papers\<close> does not raise because of that block: with a limit
  \<open>L\<close> that is not negative it returns the records of the well-formed blocks among the
  first \<open>L\<close> blocks of the page, in the order of the page, and leaves the other block out.
  Every other entry is returned when \<open>L\<close> is at least the number of blocks.  The limit counts
  the blocks before they are parsed, so the result is empty exactly when no well-formed
  block is among the first \<open>L\<close> blocks.
\<close>

theorem fetch_skips_malformed:
  assumes login: "ensure_logged_in st c = Inr c1"
    and page: "get_listing st (listing_request st date) = Inr (pre @ bad # post)"
    and wf: "\<forall>d\<in>set (pre @ post). well_formed d"
    and malformed: "lacks_pdf_link bad \<or> \<not> well_formed bad"
    and limit: "0 \<le> L"
  shows "\<exists>ps. fetch_daily_papers st c date L
                 = Inr (ps, c1\<lparr>requested := requested c1 @ [listing_request st date]\<rparr>)
             \<and> map Inr ps
                 = map parse_paper (take (nat L) pre @ take (nat L - Suc (length pre)) post)
             \<and> (length (pre @ bad # post) \<le> nat L \<longrightarrow>
                  map Inr ps = map parse_paper (pre @ post))
             \<and> (ps \<noteq> [] \<longleftrightarrow> (\<exists>d\<in>set (take (nat L) (pre @ bad # post)). well_formed d))"
proof -
  have bad: "\<not> well_formed bad"
    using malformed lacks_pdf_link_malformed by blast
  define n where "n = nat L"
  define ws where "ws = take n pre @ take (n - Suc (length pre)) post"
  define ps where "ps = parse_loop [] ws"
  have sl: "slice_to L (pre @ bad # post) = take n (pre @ bad # post)"
    using limit by (simp add: slice_to_def n_def)
  have wfw: "\<forall>d\<in>set ws. well_formed d"
    using wf by (auto simp: ws_def dest: in_set_takeD)
  have m: "map Inr ps = map parse_paper ws"
    unfolding ps_def using wfw by (rule parse_loop_well_formed)
  have "fetch_daily_papers st c date L
          = Inr (parse_loop [] (take n (pre @ bad # post)),
                 c1\<lparr>requested := requested c1 @ [listing_request st date]\<rparr>)"
    using fetch_daily_papers_result [OF login page] sl by simp
  then have f: "fetch_daily_papers st c date L
          = Inr (ps, c1\<lparr>requested := requested c1 @ [listing_request st date]\<rparr>)"
    using parse_loop_window [OF bad, of n pre post] by (simp add: ps_def ws_def)
  have full: "map Inr ps = map parse_paper (pre @ post)" if "length (pre @ bad # post) \<le> n"
  proof -
    have "ws = pre @ post" using that by (simp add: ws_def)
    then show ?thesis using m by simp
  qed
  have len: "length ps = length ws" using m by (metis length_map)
  have sets: "set ws \<subseteq> set (take n (pre @ bad # post))
              \<and> set (take n (pre @ bad # post)) \<subseteq> insert bad (set ws)"
  proof (cases "n \<le> length pre")
    case True
    then have "take n (pre @ bad # post) = ws" by (simp add: ws_def)
    then show ?thesis by auto
  next
    case False
    then have "take n (pre @ bad # post) = pre @ bad # take (n - Suc (length pre)) post"
      by (simp only: take_around if_False)
    moreover have "ws = pre @ take (n - Suc (length pre)) post"
      using False by (simp add: ws_def)
    ultimately show ?thesis by auto
  qed
  have window: "(\<exists>d\<in>set (take n (pre @ bad # post)). well_formed d) \<longleftrightarrow> ws \<noteq> []"
  proof
    assume "\<exists>d\<in>set (take n (pre @ bad # post)). well_formed d"
    then obtain d where d: "d \<in> set (take n (pre @ bad # post))" "well_formed d" by blast
    then have "d \<noteq> bad" using bad by auto
    then have "d \<in> set ws" using d(1) sets by auto
    then show "ws \<noteq> []" by auto
  next
    assume "ws \<noteq> []"
    then obtain d where d: "d \<in> set ws" by (cases ws) auto
    then have "well_formed d" using wfw by blast
    moreover have "d \<in> set (take n (pre @ bad # post))" using d sets by auto
    ultimately show "\<exists>d\<in>set (take n (pre @ bad # post)). well_formed d" by blast
  qed
  have ne: "ps \<noteq> [] \<longleftrightarrow> (\<exists>d\<in>set (take n (pre @ bad # post)). well_formed d)"
    using window len by auto
  show ?thesis
    using f m full ne unfolding ws_def n_def by blast
qed

theorem fetch_skips_malformed_witness:
  "ensure_logged_in (site_with page_1_bad_3) new_client = Inr logged_in_client
   \<and> get_listing (site_with page_1_bad_3)
         (listing_request (site_with page_1_bad_3) (PyStr ''2026-01-09''))
       = Inr ([block ''1. First'' ''2601.00001v1'']
              @ block_without_pdf ''2. Second'' ''2601.00002v3''
              # [block ''3. Third'' ''2601.00003v1''])
   \<and> well_formed (block ''1. First'' ''2601.00001v1'')
   \<and> well_formed (block ''3. Third'' ''2601.00003v1'')
   \<and> lacks_pdf_link (block_without_pdf ''2. Second'' ''2601.00002v3'')
   \<and> (0::int) \<le> 10
   \<and> fetch_daily_papers (site_with page_1_bad_3) new_client (PyStr ''2026-01-09'') 10
       = Inr ([record_of 1 ''First'' ''2601.00001'' ''2601.00001v1'',
               record_of 3 ''Third'' ''2601.00003'' ''2601.00003v1''],
              \<lparr>logged_in = True, requested = [login_url, login_url, request_0109]\<rparr>)"
proof -
  let ?b1 = "block ''1. First'' ''2601.00001v1''"
  let ?b2 = "block_without_pdf ''2. Second'' ''2601.00002v3''"
  let ?b3 = "block ''3. Third'' ''2601.00003v1''"
  have p: "get_listing (site_with page_1_bad_3)
             (listing_request (site_with page_1_bad_3) (PyStr ''2026-01-09''))
           = Inr ([?b1] @ ?b2 # [?b3])"
    by (simp add: get_listing_site_with page_1_bad_3_def)
  have wf: "\<forall>d\<in>set ([?b1] @ [?b3]). well_formed d"
    by (simp add: well_formed_def parse_block_1 parse_block_3)
  have bad: "lacks_pdf_link ?b2 \<or> \<not> well_formed ?b2"
    using lacks_pdf_link_block_without_pdf by simp
  have lacks: "lacks_pdf_link ?b2"
    by (rule lacks_pdf_link_block_without_pdf)
  obtain ps where ps:
    "fetch_daily_papers (site_with page_1_bad_3) new_client (PyStr ''2026-01-09'') 10
       = Inr (ps, logged_in_client\<lparr>requested := requested logged_in_client
               @ [listing_request (site_with page_1_bad_3) (PyStr ''2026-01-09'')]\<rparr>)"
    "length ([?b1] @ ?b2 # [?b3]) \<le> nat 10 \<longrightarrow> map Inr ps = map parse_paper ([?b1] @ [?b3])"
    using fetch_skips_malformed [OF login_new_client p wf bad, of 10] by auto
  have "(map Inr ps :: (error + paper) list)
          = [Inr (record_of 1 ''First'' ''2601.00001'' ''2601.00001v1''),
             Inr (record_of 3 ''Third'' ''2601.00003'' ''2601.00003v1'')]"
    using ps(2) by (simp add: parse_block_1 parse_block_3)
  then have "ps = [record_of 1 ''First'' ''2601.00001'' ''2601.00001v1'',
                   record_of 3 ''Third'' ''2601.00003'' ''2601.00003v1'']"
    by (auto simp: map_eq_Cons_conv)
  then show ?thesis
    using ps(1) p wf lacks login_new_client [of page_1_bad_3]
    by (simp add: logged_in_client_def listing_request_str listing_url_def request_0109_def)
qed

text \<open>
  The claim as it was stated fails when the block that does not parse stands within the limit
  and the well-formed one beyond it: the page has a well-formed entry, the limit is 1, and
  the result is empty.
\<close>

theorem fetch_skips_malformed_counterexample:
  "fetch_daily_papers (site_with page_bad_2) new_client (PyStr ''2026-01-09'') 1
     = Inr ([], \<lparr>logged_in = True, requested = [login_url, login_url, request_0109]\<rparr>)"
  by (simp add: fetch_daily_papers_result [OF login_new_client get_listing_site_with]
      slice_to_def page_bad_2_def parse_block_without_pdf logged_in_client_def
      listing_request_str listing_url_def request_0109_def)

section \<open>The identifier of a record\<close>

text \<open>
  Claim C7.  The identifier is the text before the first letter \<open>v\<close> of the version label
  (lemma \<open>parse_arxiv_id\<close>), not the label without its trailing version marker.  The two
  differ when the identifier holds a \<open>v\<close> itself, as the identifiers of the archive
  \<open>solv-int\<close> do: for the version label \<open>solv-int/9901001v2\<close> the record has the
  identifier \<open>sol\<close>, where the claim asks for \<open>solv-int/9901001\<close>.
\<close>

theorem arxiv_id_cut_at_first_v:
  "parse_paper (block ''1. Solitons'' ''solv-int/9901001v2'')
     = Inr \<lparr> rank = 1, title = ''Solitons'', authors = ''A. Author'',
             abstract = ''Abstract.'', arxiv_id = ''sol'',
             arxiv_version = ''solv-int/9901001v2'',
             pdf_url = ''https://arxiv.org/pdf/solv-int/9901001v2.pdf'',
             abs_url = ''https://arxiv.org/abs/solv-int/9901001v2'' \<rparr>"
  by (simp add: parse_defs)

section \<open>The date of a listing request\<close>

lemma str_nat_length: "10 ^ k \<le> n \<Longrightarrow> n < 10 ^ Suc k \<Longrightarrow> length (str_nat n) = Suc k"
proof (induction k arbitrary: n)
  case 0
  then show ?case by (simp add: str_nat.simps [of n])
next
  case (Suc k)
  have big: "\<not> n < 10"
  proof -
    have "(10::nat) ^ Suc k \<ge> 10" by (induction k) auto
    then show ?thesis using Suc.prems(1) by linarith
  qed
  have lo: "10 ^ k \<le> n div 10" using Suc.prems(1) by (simp add: less_eq_div_iff_mult_less_eq)
  have hi: "n div 10 < 10 ^ Suc k" using Suc.prems(2) by (simp add: div_less_iff_less_mult)
  show ?case
    using Suc.IH [OF lo hi] big by (simp add: str_nat.simps [of n])
qed

lemma str_int_length_8:
  assumes "10000000 \<le> i" and "i \<le> 99999999"
  shows "length (str_int i) = 8"
proof -
  have "10 ^ 7 \<le> nat i" and "nat i < 10 ^ Suc 7" using assms by simp_all
  then have "length (str_nat (nat i)) = Suc 7" by (rule str_nat_length)
  then show ?thesis using assms by (simp add: str_int_def)
qed

lemma today_site_with: "today (site_with divs) = ''2026-01-09''"
  by (simp add: site_with_def)

lemma str_int_20260109: "str_int 20260109 = ''20260109''"
  by (simp add: str_int_def str_nat.simps digit_char_def)

text \<open>
  Claim C9, as amended.  \<open>fetch_daily_papers\<close> builds the listing request from the date
  that it is given, as it is: a string is put into the URL unchanged, whatever its form,
  and today's date in the form \<open>YYYY-MM-DD\<close> is used when the date is \<open>None\<close>.  The tool
  call passes a date argument on unchanged.  Only when the argument is absent does it read
  the date of the configuration, and only there an integer of eight digits \<open>YYYYMMDD\<close>
  is rewritten to \<open>YYYY-MM-DD\<close>; when the configuration has no date either, today's
  date is used.
\<close>

theorem listing_date:
  "listing_request st PyNone = listing_url (today st)
   \<and> listing_request st (PyStr s) = listing_url s
   \<and> call_tool_fetch st c arg cfg n = fetch_daily_papers st c (tool_date (today st) arg cfg) n
   \<and> (arg \<noteq> PyNone \<longrightarrow> tool_date now arg cfg = arg)
   \<and> tool_date now PyNone PyNone = PyStr now
   \<and> tool_date now PyNone (PyStr s) = PyStr s
   \<and> (10000000 \<le> i \<and> i \<le> 99999999 \<longrightarrow>
        length (str_int i) = 8
        \<and> tool_date now PyNone (PyInt i)
            = PyStr (take 4 (str_int i) @ ''-'' @ take 2 (drop 4 (str_int i)) @ ''-''
                     @ drop 6 (str_int i)))
   \<and> (ensure_logged_in st c = Inr c1 \<and> get_listing st (listing_request st date) = Inr divs
        \<longrightarrow> (\<exists>ps. fetch_daily_papers st c date n
                     = Inr (ps, c1\<lparr>requested := requested c1 @ [listing_request st date]\<rparr>)))"
proof -
  have int8: "length (str_int i) = 8
        \<and> tool_date now PyNone (PyInt i)
            = PyStr (take 4 (str_int i) @ ''-'' @ take 2 (drop 4 (str_int i)) @ ''-''
                     @ drop 6 (str_int i))"
    if "10000000 \<le> i \<and> i \<le> 99999999"
  proof -
    have l: "length (str_int i) = 8" using that by (simp add: str_int_length_8)
    then have "take 2 (drop 6 (str_int i)) = drop 6 (str_int i)" by simp
    then show ?thesis using l by (simp add: tool_date_def Let_def)
  qed
  have fetch: "\<exists>ps. fetch_daily_papers st c date n
                     = Inr (ps, c1\<lparr>requested := requested c1 @ [listing_request st date]\<rparr>)"
    if "ensure_logged_in st c = Inr c1 \<and> get_listing st (listing_request st date) = Inr divs"
    using that fetch_daily_papers_result [of st c c1 date divs n] by blast
  have "listing_request st PyNone = listing_url (today st)"
    by (simp add: listing_request_def)
  moreover have "listing_request st (PyStr s) = listing_url s"
    by (rule listing_request_str)
  moreover have "call_tool_fetch st c arg cfg n
                   = fetch_daily_papers st c (tool_date (today st) arg cfg) n"
    by (simp add: call_tool_fetch_def)
  moreover have "arg \<noteq> PyNone \<longrightarrow> tool_date now arg cfg = arg"
    by (simp add: tool_date_def)
  moreover have "tool_date now PyNone PyNone = PyStr now"
    by (simp add: tool_date_def)
  moreover have "tool_date now PyNone (PyStr s) = PyStr s"
    by (simp add: tool_date_def)
  ultimately show ?thesis using int8 fetch by blast
qed

theorem listing_date_witness:
  "PyStr ''2026-01-09'' \<noteq> PyNone
   \<and> tool_date ''2026-11-03'' (PyStr ''2026-01-09'') (PyInt 20251231) = PyStr ''2026-01-09''
   \<and> (10000000::int) \<le> 20260109 \<and> (20260109::int) \<le> 99999999
   \<and> tool_date ''2026-11-03'' PyNone (PyInt 20260109) = PyStr ''2026-01-09''
   \<and> ensure_logged_in (site_with page_123) new_client = Inr logged_in_client
   \<and> get_listing (site_with page_123) (listing_request (site_with page_123) PyNone)
       = Inr page_123
   \<and> (\<exists>ps. fetch_daily_papers (site_with page_123) new_client PyNone 10
              = Inr (ps, \<lparr>logged_in = True,
                           requested = [login_url, login_url, request_0109]\<rparr>))"
  using listing_date [where st = "site_with page_123" and s = "''2026-01-09''"
      and c = new_client and arg = "PyStr ''2026-01-09''" and cfg = "PyInt 20251231"
      and n = 10 and now = "''2026-11-03''" and i = 20260109 and ?c1.0 = logged_in_client
      and date = PyNone and divs = page_123]
  by (simp add: str_int_20260109 login_new_client get_listing_site_with today_site_with
      logged_in_client_def listing_request_def listing_url_def request_0109_def)

text \<open>
  The claim as it was stated fails for a date in the form of eight digits that is given to
  \<open>fetch_daily_papers\<close>, as a string or as an integer, and for one that is given to the
  tool call as its argument: the request carries \<open>date=20260109\<close>.
\<close>

theorem listing_date_counterexample:
  "fetch_daily_papers (site_with page_123) new_client (PyStr ''20260109'') 0
     = Inr ([], \<lparr>logged_in = True,
                  requested = [login_url, login_url,
                    ''https://www.benty-fields.com/daily_arXiv_results?date=20260109'']\<rparr>)
   \<and> fetch_daily_papers (site_with page_123) new_client (PyInt 20260109) 0
     = Inr ([], \<lparr>logged_in = True,
                  requested = [login_url, login_url,
                    ''https://www.benty-fields.com/daily_arXiv_results?date=20260109'']\<rparr>)
   \<and> call_tool_fetch (site_with page_123) new_client (PyInt 20260109) PyNone 0
     = Inr ([], \<lparr>logged_in = True,
                  requested = [login_url, login_url,
                    ''https://www.benty-fields.com/daily_arXiv_results?date=20260109'']\<rparr>)"
  by (simp add: fetch_daily_papers_result [OF login_new_client get_listing_site_with]
      call_tool_fetch_def tool_date_def slice_to_def logged_in_client_def
      listing_request_def listing_url_def str_int_20260109)

section \<open>The cache of downloaded PDFs\<close>

text \<open>
  Claim C4.  When \<open>download_paper_pdf\<close> has returned a path, that path is
  \<open>tmp_dir / (arxiv_id + ".pdf")\<close> and the file is there; the call has sent one request to
  the network when the file was not there before, and none when it was.  A second call
  with the same record returns the same path and leaves the world as it is: it sends no
  request.
\<close>

theorem acquire_twice:
  assumes "download_paper_pdf pf tmp_dir pp w = (Inr p, w1)"
  shows "p = path_join pf tmp_dir (arxiv_id pp @ ''.pdf'')
         \<and> exists_path w1 p
         \<and> downloads w1 = (if exists_path w p then downloads w else downloads w @ [pdf_url pp])
         \<and> download_paper_pdf pf tmp_dir pp w1 = (Inr p, w1)"
proof -
  define q where "q = path_join pf tmp_dir (arxiv_id pp @ ''.pdf'')"
  show ?thesis
  proof (cases "exists_path w q")
    case True
    then have "download_paper_pdf pf tmp_dir pp w = (Inr q, w)"
      by (simp add: download_paper_pdf_def q_def)
    then have "p = q" "w1 = w" using assms by simp_all
    then show ?thesis using True by (simp add: download_paper_pdf_def q_def)
  next
    case False
    then have d: "download_pdf pf tmp_dir (pdf_url pp) (Some q) w = (Inr p, w1)"
      using assms by (simp add: download_paper_pdf_def q_def)
    then obtain r where r: "http_get pf (pdf_url pp) = Some r" "status_ok r"
        "can_open pf q" "complete r"
      using False
      by (auto simp: download_pdf_def Let_def split: option.splits if_splits)
    have "p = q"
      and w1: "w1 = w\<lparr>downloads := downloads w @ [pdf_url pp],
                      files := (files w)(q \<mapsto> write_chunks [] (chunks r))\<rparr>"
      using d False r by (auto simp: download_pdf_def Let_def)
    then have "exists_path w1 q" by (simp add: exists_path_def)
    then show ?thesis
      using \<open>p = q\<close> w1 False by (simp add: download_paper_pdf_def q_def Let_def)
  qed
qed

theorem acquire_twice_witness:
  "download_paper_pdf (example_platform (Some whole_body)) cache_dir example_paper empty_world
     = (Inr cached_pdf,
        \<lparr>files = [cached_pdf \<mapsto> ''%PDF-1.7 body''], downloads = [example_url],
          conversions = []\<rparr>)
   \<and> download_paper_pdf (example_platform (Some whole_body)) cache_dir example_paper
        \<lparr>files = [cached_pdf \<mapsto> ''%PDF-1.7 body''], downloads = [example_url],
          conversions = []\<rparr>
     = (Inr cached_pdf,
        \<lparr>files = [cached_pdf \<mapsto> ''%PDF-1.7 body''], downloads = [example_url],
          conversions = []\<rparr>)"
proof -
  have first:
    "download_paper_pdf (example_platform (Some whole_body)) cache_dir example_paper empty_world
       = (Inr cached_pdf,
          \<lparr>files = [cached_pdf \<mapsto> ''%PDF-1.7 body''], downloads = [example_url],
            conversions = []\<rparr>)"
    by (simp add: download_paper_pdf_def download_pdf_def exists_path_def Let_def example_defs)
  have second:
    "download_paper_pdf (example_platform (Some whole_body)) cache_dir example_paper
        \<lparr>files = [cached_pdf \<mapsto> ''%PDF-1.7 body''], downloads = [example_url],
          conversions = []\<rparr>
     = (Inr cached_pdf,
        \<lparr>files = [cached_pdf \<mapsto> ''%PDF-1.7 body''], downloads = [example_url],
          conversions = []\<rparr>)"
    using acquire_twice [OF first] by blast
  show ?thesis using first second by (rule conjI)
qed

text \<open>
  Claim C2, as amended.  When \<open>download_paper_pdf\<close> fails, the file was not in the cache
  and one request has been sent.  If the request raised before an answer came, if the
  status was not a success or if the file could not be opened, the files are as they were:
  no file is at the cache path.  Otherwise the stream broke in the middle of the body, and
  the file at the cache path holds the chunks that had come by then.
\<close>

theorem acquire_failure:
  assumes "download_paper_pdf pf tmp_dir pp w = (Inl e, w1)"
  shows "\<not> exists_path w (path_join pf tmp_dir (arxiv_id pp @ ''.pdf''))
         \<and> downloads w1 = downloads w @ [pdf_url pp]
         \<and> conversions w1 = conversions w
         \<and> (case http_get pf (pdf_url pp) of
               None \<Rightarrow> e = ConnectionError \<and> files w1 = files w
             | Some r \<Rightarrow>
                 if \<not> status_ok r then e = HTTPError \<and> files w1 = files w
                 else if \<not> can_open pf (path_join pf tmp_dir (arxiv_id pp @ ''.pdf''))
                 then e = OSError \<and> files w1 = files w
                 else \<not> complete r \<and> e = ConnectionError
                      \<and> files w1 = (files w)(path_join pf tmp_dir (arxiv_id pp @ ''.pdf'')
                                                \<mapsto> write_chunks [] (chunks r)))"
proof -
  define q where "q = path_join pf tmp_dir (arxiv_id pp @ ''.pdf'')"
  have miss: "\<not> exists_path w q"
    using assms by (auto simp: download_paper_pdf_def q_def Let_def split: if_splits)
  then have d: "download_pdf pf tmp_dir (pdf_url pp) (Some q) w = (Inl e, w1)"
    using assms by (simp add: download_paper_pdf_def q_def)
  show ?thesis
    unfolding q_def [symmetric]
    using miss d
    by (auto simp: download_pdf_def Let_def split: option.splits if_splits)
qed

theorem acquire_failure_witness:
  "download_paper_pdf (example_platform (Some not_found)) cache_dir example_paper empty_world
     = (Inl HTTPError, \<lparr>files = Map.empty, downloads = [example_url], conversions = []\<rparr>)
   \<and> \<not> exists_path \<lparr>files = Map.empty, downloads = [example_url], conversions = []\<rparr> cached_pdf"
proof -
  have first:
    "download_paper_pdf (example_platform (Some not_found)) cache_dir example_paper empty_world
       = (Inl HTTPError, \<lparr>files = Map.empty, downloads = [example_url], conversions = []\<rparr>)"
    by (simp add: download_paper_pdf_def download_pdf_def exists_path_def Let_def example_defs)
  have "\<not> exists_path empty_world
           (path_join (example_platform (Some not_found)) cache_dir
              (arxiv_id example_paper @ ''.pdf''))"
    using acquire_failure [OF first] by blast
  then have "\<not> exists_path \<lparr>files = Map.empty, downloads = [example_url],
                               conversions = []\<rparr> cached_pdf"
    by (simp add: exists_path_def example_defs)
  with first show ?thesis by (rule conjI)
qed

text \<open>
  The claim as it was stated fails when the stream breaks in the middle of the body: the two
  chunks that had come are in the file at the cache path, the call fails, and the next
  call finds the file and returns its path without a request.
\<close>

theorem acquire_failure_counterexample:
  "download_paper_pdf (example_platform (Some broken_body)) cache_dir example_paper empty_world
     = (Inl ConnectionError,
        \<lparr>files = [cached_pdf \<mapsto> ''%PDF-1.7 first half''], downloads = [example_url],
          conversions = []\<rparr>)
   \<and> exists_path \<lparr>files = [cached_pdf \<mapsto> ''%PDF-1.7 first half''], downloads = [example_url],
          conversions = []\<rparr> cached_pdf
   \<and> download_paper_pdf (example_platform (Some broken_body)) cache_dir example_paper
        \<lparr>files = [cached_pdf \<mapsto> ''%PDF-1.7 first half''], downloads = [example_url],
          conversions = []\<rparr>
     = (Inr cached_pdf,
        \<lparr>files = [cached_pdf \<mapsto> ''%PDF-1.7 first half''], downloads = [example_url],
          conversions = []\<rparr>)"
  by (simp add: download_paper_pdf_def download_pdf_def exists_path_def Let_def example_defs)

section \<open>The cache of converted markdown\<close>

lemma convert_to_markdown_files:
  "convert_to_markdown pf pdf w = (r, w1) \<Longrightarrow> files w1 = files w \<and> downloads w1 = downloads w"
  by (auto simp: convert_to_markdown_def Let_def split: option.splits if_splits sum.splits)

lemma convert_to_markdown_ok:
  "convert_to_markdown pf pdf w = (Inr markdown, w1) \<Longrightarrow>
     w1 = w\<lparr>conversions := conversions w @ [pdf]\<rparr>"
  by (auto simp: convert_to_markdown_def Let_def split: option.splits if_splits sum.splits)

text \<open>
  Claim C5.  When the markdown file of a PDF is there, \<open>convert_and_save_markdown\<close>
  returns its path and leaves the world as it is: the PDF is not read and nothing is
  converted, whatever the PDF holds.  So when a first call has returned the path, having
  converted the PDF once if the markdown file was not there and not at all if it was, a
  second call returns the same path without a conversion, also when the content of the PDF
  has been changed in between.
\<close>

theorem convert_twice:
  assumes "convert_and_save_markdown pf pdf None w = (Inr m, w1)"
  shows "m = get_markdown_path pf pdf
         \<and> exists_path w1 m
         \<and> conversions w1 = (if exists_path w m then conversions w else conversions w @ [pdf])
         \<and> convert_and_save_markdown pf pdf None w1 = (Inr m, w1)
         \<and> convert_and_save_markdown pf pdf None (w1\<lparr>files := (files w1)(pdf \<mapsto> changed)\<rparr>)
             = (Inr m, w1\<lparr>files := (files w1)(pdf \<mapsto> changed)\<rparr>)
         \<and> (exists_path w' (get_markdown_path pf pdf') \<longrightarrow>
               convert_and_save_markdown pf pdf' None w'
                 = (Inr (get_markdown_path pf pdf'), w'))"
proof -
  define q where "q = get_markdown_path pf pdf"
  have hit: "convert_and_save_markdown pf x None v = (Inr (get_markdown_path pf x), v)"
    if "exists_path v (get_markdown_path pf x)" for x v
    using that by (simp add: convert_and_save_markdown_def)
  have first: "m = q \<and> exists_path w1 q
      \<and> conversions w1 = (if exists_path w q then conversions w else conversions w @ [pdf])"
  proof (cases "exists_path w q")
    case True
    then have "convert_and_save_markdown pf pdf None w = (Inr q, w)"
      unfolding q_def by (rule hit)
    then show ?thesis using assms True by simp
  next
    case False
    then obtain markdown w0 where c: "convert_to_markdown pf pdf w = (Inr markdown, w0)"
      and open_ok: "can_open pf q"
      and res: "m = q" "w1 = w0\<lparr>files := (files w0)(q \<mapsto> markdown)\<rparr>"
      using assms
      by (auto simp: convert_and_save_markdown_def q_def Let_def
          split: prod.splits sum.splits if_splits)
    have "w0 = w\<lparr>conversions := conversions w @ [pdf]\<rparr>"
      using c by (rule convert_to_markdown_ok)
    then show ?thesis using res False by (simp add: exists_path_def)
  qed
  then have e1: "exists_path w1 (get_markdown_path pf pdf)" by (simp add: q_def)
  then have e2: "exists_path (w1\<lparr>files := (files w1)(pdf \<mapsto> changed)\<rparr>)
                   (get_markdown_path pf pdf)"
    by (simp add: exists_path_def)
  have "convert_and_save_markdown pf pdf None w1 = (Inr m, w1)"
    using hit [OF e1] first by (simp add: q_def)
  moreover have "convert_and_save_markdown pf pdf None (w1\<lparr>files := (files w1)(pdf \<mapsto> changed)\<rparr>)
             = (Inr m, w1\<lparr>files := (files w1)(pdf \<mapsto> changed)\<rparr>)"
    using hit [OF e2] first by (simp add: q_def)
  ultimately show ?thesis using first hit [of w' pdf'] unfolding q_def by blast
qed

theorem convert_twice_witness:
  "convert_and_save_markdown (example_platform None) cached_pdf None
       \<lparr>files = [cached_pdf \<mapsto> ''%PDF-1.7 body''], downloads = [], conversions = []\<rparr>
     = (Inr cached_md,
        \<lparr>files = [cached_pdf \<mapsto> ''%PDF-1.7 body'', cached_md \<mapsto> ''# %PDF-1.7 body''],
          downloads = [], conversions = [cached_pdf]\<rparr>)
   \<and> convert_and_save_markdown (example_platform None) cached_pdf None
       (\<lparr>files = [cached_pdf \<mapsto> ''%PDF-1.7 body'', cached_md \<mapsto> ''# %PDF-1.7 body''],
          downloads = [], conversions = [cached_pdf]\<rparr>
        \<lparr>files := [cached_pdf \<mapsto> ''%PDF-1.7 body'', cached_md \<mapsto> ''# %PDF-1.7 body'']
                    (cached_pdf \<mapsto> ''%PDF-1.7 another body'')\<rparr>)
     = (Inr cached_md,
        \<lparr>files = [cached_pdf \<mapsto> ''%PDF-1.7 body'', cached_md \<mapsto> ''# %PDF-1.7 body''],
          downloads = [], conversions = [cached_pdf]\<rparr>
        \<lparr>files := [cached_pdf \<mapsto> ''%PDF-1.7 body'', cached_md \<mapsto> ''# %PDF-1.7 body'']
                    (cached_pdf \<mapsto> ''%PDF-1.7 another body'')\<rparr>)
   \<and> exists_path
        \<lparr>files = [cached_md \<mapsto> ''# old''], downloads = [], conversions = []\<rparr>
        (get_markdown_path (example_platform None) cached_pdf)
   \<and> convert_and_save_markdown (example_platform None) cached_pdf None
        \<lparr>files = [cached_md \<mapsto> ''# old''], downloads = [], conversions = []\<rparr>
     = (Inr cached_md,
        \<lparr>files = [cached_md \<mapsto> ''# old''], downloads = [], conversions = []\<rparr>)"
proof -
  let ?w = "\<lparr>files = [cached_pdf \<mapsto> ''%PDF-1.7 body''], downloads = [], conversions = []\<rparr>"
  let ?w1 = "\<lparr>files = [cached_pdf \<mapsto> ''%PDF-1.7 body'', cached_md \<mapsto> ''# %PDF-1.7 body''],
          downloads = [], conversions = [cached_pdf]\<rparr>"
  let ?v = "\<lparr>files = [cached_md \<mapsto> ''# old''], downloads = [], conversions = []\<rparr>"
  have md: "get_markdown_path (example_platform None) cached_pdf = cached_md"
    by (simp add: get_markdown_path_def endswith_def example_defs)
  have first: "convert_and_save_markdown (example_platform None) cached_pdf None ?w
                 = (Inr cached_md, ?w1)"
    by (simp add: convert_and_save_markdown_def convert_to_markdown_def exists_path_def Let_def
        md) (simp add: example_defs)
  have ev: "exists_path ?v (get_markdown_path (example_platform None) cached_pdf)"
    by (simp add: md exists_path_def)
  note t = convert_twice [OF first, of "''%PDF-1.7 another body''" ?v cached_pdf]
  have second: "convert_and_save_markdown (example_platform None) cached_pdf None
        (?w1\<lparr>files := (files ?w1)(cached_pdf \<mapsto> ''%PDF-1.7 another body'')\<rparr>)
      = (Inr cached_md, ?w1\<lparr>files := (files ?w1)(cached_pdf \<mapsto> ''%PDF-1.7 another body'')\<rparr>)"
    using t by blast
  have third: "convert_and_save_markdown (example_platform None) cached_pdf None ?v
                 = (Inr cached_md, ?v)"
    using t ev md by simp
  show ?thesis using first second ev third by simp
qed

section \<open>Text extraction and its fallback\<close>

text \<open>What the two loops return: the text that they reach, and whether a page stops them.\<close>

lemma fitz_loop_text:
  "fst (fitz_loop acc doc) = acc @ pages_text (takeWhile (\<lambda>page. \<not> isl page) doc)"
  by (induction doc arbitrary: acc) (auto simp: pages_text_def split: sum.splits)

lemma fitz_loop_fails: "snd (fitz_loop acc doc) \<noteq> None \<longleftrightarrow> (\<exists>page\<in>set doc. isl page)"
  by (induction doc arbitrary: acc) (auto split: sum.splits)

lemma plumber_loop_text:
  "fst (plumber_loop acc pdf)
     = acc @ plumber_pages_text (takeWhile (\<lambda>page. \<not> isl page) pdf)"
  by (induction pdf arbitrary: acc)
    (auto simp: plumber_pages_text_def split: sum.splits option.splits)

lemma plumber_loop_fails:
  "snd (plumber_loop acc pdf) \<noteq> None \<longleftrightarrow> (\<exists>page\<in>set pdf. isl page)"
  by (induction pdf arbitrary: acc) (auto split: sum.splits option.splits)

text \<open>
  An attempt fails exactly when the library cannot open the document or one of the pages
  raises.
\<close>

lemma try_pymupdf_fails:
  "snd (try_pymupdf pf content acc) \<noteq> None \<longleftrightarrow> backend_fails pf content PyMuPDF"
  using fitz_loop_fails [of acc]
  by (cases "fitz_open pf content") (simp_all add: try_pymupdf_def)

lemma try_pdfplumber_fails:
  "snd (try_pdfplumber pf content acc) \<noteq> None \<longleftrightarrow> backend_fails pf content Pdfplumber"
  using plumber_loop_fails [of acc]
  by (cases "pdfplumber_open pf content") (simp_all add: try_pdfplumber_def)

lemma try_pymupdf_text: "fst (try_pymupdf pf content []) = text_before_failure pf content"
  by (cases "fitz_open pf content")
    (simp_all add: try_pymupdf_def text_before_failure_def fitz_loop_text)

lemma takeWhile_all: "\<forall>x\<in>set xs. P x \<Longrightarrow> takeWhile P xs = xs"
  by (induction xs) auto

lemma fall_back_outcome:
  "fall_back pf content acc tried
     = (if PDFPLUMBER_AVAILABLE pf then
          (if backend_fails pf content Pdfplumber
           then (Inl (LibraryError (the (snd (try_pdfplumber pf content acc)))),
                 tried @ [Pdfplumber])
           else (Inr (fst (try_pdfplumber pf content acc)), tried @ [Pdfplumber]))
        else (Inl (RuntimeError ''No PDF extraction library available''), tried))"
proof -
  obtain t r where tr: "try_pdfplumber pf content acc = (t, r)"
    by (cases "try_pdfplumber pf content acc")
  have "r \<noteq> None \<longleftrightarrow> backend_fails pf content Pdfplumber"
    using try_pdfplumber_fails [of pf content acc] tr by simp
  then show ?thesis using tr by (cases r) (simp_all add: fall_back_def)
qed

lemma try_pdfplumber_ok:
  assumes "pdfplumber_open pf content = Inr pdf" and "\<forall>page\<in>set pdf. \<not> isl page"
  shows "fst (try_pdfplumber pf content acc) = acc @ plumber_pages_text pdf"
  using assms by (simp add: try_pdfplumber_def plumber_loop_text takeWhile_all)

text \<open>
  Claim C8.  \<open>extract_text\<close> raises \<open>FileNotFoundError\<close> exactly when the file is not
  there.  When it is there, PyMuPDF is tried first if it is installed; pdfplumber is tried
  if it is installed and PyMuPDF is not installed or has failed.  A backend fails when the
  library cannot open the document or one of its pages raises.  The call fails exactly
  when every backend that it has tried has failed, which includes the case that none is
  installed; the exception is then the \<open>RuntimeError\<close> of the source or the one of
  pdfplumber, never \<open>FileNotFoundError\<close>.  When PyMuPDF succeeds, the text of its pages is
  returned; when pdfplumber is tried and succeeds, the text of its pages is returned after
  what PyMuPDF had added before it failed.
\<close>

theorem extract_text_outcome:
  "((\<exists>q. fst (extract_text pf w p) = Inl (FileNotFoundError q)) \<longleftrightarrow> \<not> exists_path w p)
   \<and> (files w p = Some content \<longrightarrow>
        snd (extract_text pf w p)
          = (if PYMUPDF_AVAILABLE pf
             then (if backend_fails pf content PyMuPDF \<and> PDFPLUMBER_AVAILABLE pf
                   then [PyMuPDF, Pdfplumber] else [PyMuPDF])
             else (if PDFPLUMBER_AVAILABLE pf then [Pdfplumber] else []))
        \<and> (isl (fst (extract_text pf w p))
             \<longleftrightarrow> (\<forall>b\<in>set (snd (extract_text pf w p)). backend_fails pf content b))
        \<and> (isl (fst (extract_text pf w p)) \<longrightarrow>
             (\<exists>msg. fst (extract_text pf w p) = Inl (RuntimeError msg)
                    \<or> fst (extract_text pf w p) = Inl (LibraryError msg)))
        \<and> (PYMUPDF_AVAILABLE pf \<and> fitz_open pf content = Inr doc
             \<and> (\<forall>page\<in>set doc. \<not> isl page) \<longrightarrow>
             fst (extract_text pf w p) = Inr (pages_text doc))
        \<and> (PDFPLUMBER_AVAILABLE pf \<and> pdfplumber_open pf content = Inr pdf
             \<and> (\<forall>page\<in>set pdf. \<not> isl page)
             \<and> (PYMUPDF_AVAILABLE pf \<longrightarrow> backend_fails pf content PyMuPDF) \<longrightarrow>
             fst (extract_text pf w p)
               = Inr ((if PYMUPDF_AVAILABLE pf then text_before_failure pf content else [])
                      @ plumber_pages_text pdf)))"
proof -
  have missing: "(\<exists>q. fst (extract_text pf w p) = Inl (FileNotFoundError q))" if "files w p = None"
    using that by (simp add: extract_text_def)
  have present:
    "snd (extract_text pf w p)
          = (if PYMUPDF_AVAILABLE pf
             then (if backend_fails pf content PyMuPDF \<and> PDFPLUMBER_AVAILABLE pf
                   then [PyMuPDF, Pdfplumber] else [PyMuPDF])
             else (if PDFPLUMBER_AVAILABLE pf then [Pdfplumber] else []))
        \<and> (isl (fst (extract_text pf w p))
             \<longleftrightarrow> (\<forall>b\<in>set (snd (extract_text pf w p)). backend_fails pf content b))
        \<and> (isl (fst (extract_text pf w p)) \<longrightarrow>
             (\<exists>msg. fst (extract_text pf w p) = Inl (RuntimeError msg)
                    \<or> fst (extract_text pf w p) = Inl (LibraryError msg)))
        \<and> (PYMUPDF_AVAILABLE pf \<and> fitz_open pf content = Inr doc
             \<and> (\<forall>page\<in>set doc. \<not> isl page) \<longrightarrow>
             fst (extract_text pf w p) = Inr (pages_text doc))
        \<and> (PDFPLUMBER_AVAILABLE pf \<and> pdfplumber_open pf content = Inr pdf
             \<and> (\<forall>page\<in>set pdf. \<not> isl page)
             \<and> (PYMUPDF_AVAILABLE pf \<longrightarrow> backend_fails pf content PyMuPDF) \<longrightarrow>
             fst (extract_text pf w p)
               = Inr ((if PYMUPDF_AVAILABLE pf then text_before_failure pf content else [])
                      @ plumber_pages_text pdf))
        \<and> (\<forall>q. fst (extract_text pf w p) \<noteq> Inl (FileNotFoundError q))"
    if c: "files w p = Some content" for content
  proof -
    obtain t r where tr: "try_pymupdf pf content [] = (t, r)"
      by (cases "try_pymupdf pf content []")
    have t: "t = text_before_failure pf content"
      using try_pymupdf_text [of pf content] tr by simp
    have r: "r \<noteq> None \<longleftrightarrow> backend_fails pf content PyMuPDF"
      using try_pymupdf_fails [of pf content "[]"] tr by simp
    have second: "backend_fails pf content Pdfplumber
                    \<longleftrightarrow> \<not> (pdfplumber_open pf content = Inr pdf \<and> (\<forall>page\<in>set pdf. \<not> isl page))"
      if "pdfplumber_open pf content = Inr pdf"
      using that by simp
    show ?thesis
    proof (cases "PYMUPDF_AVAILABLE pf")
      case False
      then have e: "extract_text pf w p = fall_back pf content [] []"
        using c by (simp add: extract_text_def)
      show ?thesis
        using False e try_pdfplumber_ok [of pf content pdf "[]"]
        by (auto simp: fall_back_outcome)
    next
      case True
      show ?thesis
      proof (cases r)
        case None
        then have e: "extract_text pf w p = (Inr t, [PyMuPDF])"
          using c True tr by (simp add: extract_text_def)
        have nf: "\<not> backend_fails pf content PyMuPDF" using r None by simp
        have "t = pages_text doc"
          if "fitz_open pf content = Inr doc" "\<forall>page\<in>set doc. \<not> isl page"
          using that t by (simp add: text_before_failure_def takeWhile_all)
        then show ?thesis using True e nf by auto
      next
        case (Some x)
        then have e: "extract_text pf w p = fall_back pf content t [PyMuPDF]"
          using c True tr by (simp add: extract_text_def)
        have f: "backend_fails pf content PyMuPDF" using r Some by simp
        have nodoc: "\<not> (fitz_open pf content = Inr doc \<and> (\<forall>page\<in>set doc. \<not> isl page))"
          using f by auto
        show ?thesis
          using True e f nodoc t try_pdfplumber_ok [of pf content pdf t]
          by (auto simp: fall_back_outcome)
      qed
    qed
  qed
  show ?thesis
  proof (cases "files w p")
    case None
    then show ?thesis using missing by (simp add: exists_path_def)
  next
    case (Some c)
    then show ?thesis using present [OF Some] by (simp add: exists_path_def)
  qed
qed

theorem extract_text_outcome_witness:
  "files \<lparr>files = [cached_pdf \<mapsto> ''%PDF scanned''], downloads = [], conversions = []\<rparr> cached_pdf
     = Some ''%PDF scanned''
   \<and> backend_fails (example_platform None) ''%PDF scanned'' PyMuPDF
   \<and> \<not> backend_fails (example_platform None) ''%PDF scanned'' Pdfplumber
   \<and> snd (extract_text (example_platform None)
        \<lparr>files = [cached_pdf \<mapsto> ''%PDF scanned''], downloads = [], conversions = []\<rparr> cached_pdf)
       = [PyMuPDF, Pdfplumber]
   \<and> fst (extract_text (example_platform None)
        \<lparr>files = [cached_pdf \<mapsto> ''%PDF scanned''], downloads = [], conversions = []\<rparr> cached_pdf)
       = Inr (''Page one. Page one'' @ [CHR 0x0A] @ ''Page two'' @ [CHR 0x0A])
   \<and> fst (extract_text (example_platform None)
        \<lparr>files = [cached_pdf \<mapsto> ''%PDF-1.7 body''], downloads = [], conversions = []\<rparr> cached_pdf)
       = Inr ''%PDF-1.7 body''
   \<and> isl (fst (extract_text ((example_platform None)\<lparr>PDFPLUMBER_AVAILABLE := False\<rparr>)
        \<lparr>files = [cached_pdf \<mapsto> ''%PDF scanned''], downloads = [], conversions = []\<rparr> cached_pdf))
   \<and> fst (extract_text ((example_platform None)\<lparr>PDFPLUMBER_AVAILABLE := False\<rparr>)
        \<lparr>files = [cached_pdf \<mapsto> ''%PDF scanned''], downloads = [], conversions = []\<rparr> cached_pdf)
       = Inl (RuntimeError ''No PDF extraction library available'')
   \<and> fst (extract_text (example_platform None) empty_world cached_pdf)
       = Inl (FileNotFoundError cached_pdf)"
proof -
  let ?pf = "example_platform None"
  let ?w = "\<lparr>files = [cached_pdf \<mapsto> ''%PDF scanned''], downloads = [], conversions = []\<rparr>"
  let ?v = "\<lparr>files = [cached_pdf \<mapsto> ''%PDF-1.7 body''], downloads = [], conversions = []\<rparr>"
  let ?pdf = "[Inr (Some ''Page one''), Inr None, Inr (Some ''Page two'')]"
  have f1: "backend_fails ?pf ''%PDF scanned'' PyMuPDF"
    by (simp add: example_platform_def)
  have f2: "\<not> backend_fails ?pf ''%PDF scanned'' Pdfplumber"
    by (simp add: example_platform_def)
  have a: "PYMUPDF_AVAILABLE ?pf" "PDFPLUMBER_AVAILABLE ?pf"
    by (simp_all add: example_platform_def)
  have w: "files ?w cached_pdf = Some ''%PDF scanned''" by simp
  have v: "files ?v cached_pdf = Some ''%PDF-1.7 body''" by simp
  have po: "pdfplumber_open ?pf ''%PDF scanned'' = Inr ?pdf"
    by (simp add: example_platform_def)
  have ok2: "\<forall>page\<in>set ?pdf. \<not> isl page" by simp
  have fo: "fitz_open ?pf ''%PDF-1.7 body'' = Inr [Inr ''%PDF-1.7 body'']"
    by (simp add: example_platform_def)
  have partial: "text_before_failure ?pf ''%PDF scanned'' = ''Page one. ''"
    by (simp add: text_before_failure_def pages_text_def example_platform_def)
  have ptext: "plumber_pages_text ?pdf = ''Page one'' @ [CHR 0x0A] @ ''Page two'' @ [CHR 0x0A]"
    by (simp add: plumber_pages_text_def)
  note o = extract_text_outcome [of ?pf ?w cached_pdf "''%PDF scanned''" doc ?pdf]
  have tried: "snd (extract_text ?pf ?w cached_pdf) = [PyMuPDF, Pdfplumber]"
    using o w f1 a by simp
  have second: "fst (extract_text ?pf ?w cached_pdf)
                = Inr (''Page one. Page one'' @ [CHR 0x0A] @ ''Page two'' @ [CHR 0x0A])"
    using o w f1 a po ok2 partial ptext by simp
  have got: "fst (extract_text ?pf ?v cached_pdf) = Inr ''%PDF-1.7 body''"
    using extract_text_outcome [of ?pf ?v cached_pdf "''%PDF-1.7 body''"
        "[Inr ''%PDF-1.7 body'']" pdf] v a fo
    by (simp add: pages_text_def)
  have nf: "fst (extract_text ?pf empty_world cached_pdf) = Inl (FileNotFoundError cached_pdf)"
    by (simp add: extract_text_def empty_world_def)
  let ?pf' = "(example_platform None)\<lparr>PDFPLUMBER_AVAILABLE := False\<rparr>"
  have f1': "backend_fails ?pf' ''%PDF scanned'' PyMuPDF"
    by (simp add: example_platform_def)
  have a': "PYMUPDF_AVAILABLE ?pf'" "\<not> PDFPLUMBER_AVAILABLE ?pf'"
    by (simp_all add: example_platform_def)
  note o' = extract_text_outcome [of ?pf' ?w cached_pdf "''%PDF scanned''" doc pdf]
  have tried': "snd (extract_text ?pf' ?w cached_pdf) = [PyMuPDF]"
    using o' w a' by simp
  have fails: "isl (fst (extract_text ?pf' ?w cached_pdf))"
    using o' w tried' f1' by simp
  have err: "fst (extract_text ?pf' ?w cached_pdf)
               = Inl (RuntimeError ''No PDF extraction library available'')"
    by (simp add: extract_text_def fall_back_def try_pymupdf_def example_platform_def)
  show ?thesis using w f1 f2 tried second got fails err nf by simp
qed

end
